theory Spec2Isabelle
  imports Complex_Main "HOL-Library.Sublist"
begin

section \<open>Data model\<close>

text \<open>
  The script \<^verbatim>\<open>LST and NDVI Atlanta.js\<close> runs against the Earth Engine client library.
  An image is a timestamped stack of named bands over one pixel grid. A pixel is either
  masked (\<open>None\<close>, the platform's no-data) or carries a number; numbers are exact reals, so
  floating-point rounding is outside the model. A band lists its pixels in grid order, and a
  geometry is the list of grid cells it covers.
\<close>

type_synonym pixel = "real option"

type_synonym band = "pixel list"

type_synonym geometry = "nat list"

record image =
  time_start :: int
  CLOUD_COVER :: real
  footprint :: geometry
  bands :: "(string \<times> band) list"

datatype error = BandNotFound string | ReducerInputs nat

definition pixel_at :: "band \<Rightarrow> nat \<Rightarrow> pixel" where
  "pixel_at b i = (if i < length b then b ! i else None)"

definition bandNames :: "image \<Rightarrow> string list" where
  "bandNames img = map fst (bands img)"

section \<open>Per-pixel arithmetic of the platform\<close>

text \<open>
  A binary operation on two pixels is masked as soon as one operand is masked.
\<close>

definition px2 :: "(real \<Rightarrow> real \<Rightarrow> real) \<Rightarrow> pixel \<Rightarrow> pixel \<Rightarrow> pixel" where
  "px2 f a b = (case a of None \<Rightarrow> None | Some x \<Rightarrow> (case b of None \<Rightarrow> None | Some y \<Rightarrow> Some (f x y)))"

text \<open>
  Modelled from the spec: the division of the platform's expression evaluator (the
  \<^verbatim>\<open>/\<close> inside \<^verbatim>\<open>image.expression\<close>) is platform code, and the script adds no guard of its
  own. Following section 4.2, a division by zero yields the no-data marker for that pixel,
  not a fault; everywhere else the result is the quotient, and a masked operand gives a
  masked result.
\<close>

definition ee_divide :: "pixel \<Rightarrow> pixel \<Rightarrow> pixel" where
  "ee_divide a b =
     (case a of
        None \<Rightarrow> None
      | Some x \<Rightarrow> (case b of None \<Rightarrow> None | Some y \<Rightarrow> if y = 0 then None else Some (x / y)))"

definition multiply :: "band \<Rightarrow> real \<Rightarrow> band" where
  "multiply b c = map (map_option (\<lambda>x. x * c)) b"

definition add :: "band \<Rightarrow> real \<Rightarrow> band" where
  "add b c = map (map_option (\<lambda>x. x + c)) b"

definition subtract :: "band \<Rightarrow> real \<Rightarrow> band" where
  "subtract b c = map (map_option (\<lambda>x. x - c)) b"

section \<open>Selecting and appending bands\<close>

text \<open>
  \<^verbatim>\<open>image.select(names)\<close> keeps the named bands, in the order asked for, and fails on a name
  the image does not carry. \<^verbatim>\<open>image.addBands(src)\<close> is called with its default
  \<^verbatim>\<open>overwrite = false\<close>: the bands of the receiver stay, the incoming band is appended, and
  on a clash of names the incoming band is renamed with a numeric suffix (\<^verbatim>\<open>foo\<close> to
  \<^verbatim>\<open>foo_1\<close> unless it exists, then \<^verbatim>\<open>foo_2\<close>, and so on). The result keeps the metadata and
  footprint of the receiver.
\<close>

fun select_bands :: "string list \<Rightarrow> (string \<times> band) list \<Rightarrow> error + (string \<times> band) list" where
  "select_bands [] bs = Inr []"
| "select_bands (n # ns) bs =
     (case map_of bs n of
        None \<Rightarrow> Inl (BandNotFound n)
      | Some b \<Rightarrow> (case select_bands ns bs of Inl e \<Rightarrow> Inl e | Inr r \<Rightarrow> Inr ((n, b) # r)))"

definition select :: "string list \<Rightarrow> image \<Rightarrow> error + image" where
  "select ns img = (case select_bands ns (bands img) of Inl e \<Rightarrow> Inl e | Inr r \<Rightarrow> Inr (img\<lparr>bands := r\<rparr>))"

definition select1 :: "string \<Rightarrow> image \<Rightarrow> error + band" where
  "select1 n img = (case map_of (bands img) n of None \<Rightarrow> Inl (BandNotFound n) | Some b \<Rightarrow> Inr b)"

function string_of_nat :: "nat \<Rightarrow> string" where
  "string_of_nat n =
     (if n < 10 then [''0123456789'' ! n]
      else string_of_nat (n div 10) @ [''0123456789'' ! (n mod 10)])"
  by pat_completeness auto
termination
  by (relation "measure id") auto

declare string_of_nat.simps [simp del]

text \<open>Reading a decimal numeral back, to tell the suffixes of two numbers apart.\<close>

definition digit_value :: "char \<Rightarrow> nat" where
  "digit_value c = length (takeWhile (\<lambda>d. d \<noteq> c) ''0123456789'')"

definition nat_of_string :: "string \<Rightarrow> nat" where
  "nat_of_string s = foldl (\<lambda>a c. 10 * a + digit_value c) 0 s"

fun suffix_search :: "string \<Rightarrow> string list \<Rightarrow> nat \<Rightarrow> nat \<Rightarrow> string" where
  "suffix_search n ns k 0 = n @ ''_'' @ string_of_nat k"
| "suffix_search n ns k (Suc fuel) =
     (if n @ ''_'' @ string_of_nat k \<in> set ns then suffix_search n ns (Suc k) fuel
      else n @ ''_'' @ string_of_nat k)"

definition fresh_name :: "string \<Rightarrow> string list \<Rightarrow> string" where
  "fresh_name n ns =
     (if n \<in> set ns then suffix_search n ns 1 (length (filter (prefix (n @ ''_'')) ns)) else n)"

definition addBands :: "image \<Rightarrow> string \<times> band \<Rightarrow> image" where
  "addBands img nb = img\<lparr>bands := bands img @ [(fresh_name (fst nb) (bandNames img), snd nb)]\<rparr>"

section \<open>Band derivation: addNdvi and addLST\<close>

text \<open>
  \<^verbatim>\<open>addNdvi\<close> evaluates the expression \<^verbatim>\<open>(NIR - RED) / (NIR + RED)\<close> with \<^verbatim>\<open>NIR\<close> bound to
  band \<^verbatim>\<open>SR_B5\<close> and \<^verbatim>\<open>RED\<close> to band \<^verbatim>\<open>SR_B4\<close>, multiplies by 100, names the result
  \<^verbatim>\<open>NDVI\<close> and appends it. \<^verbatim>\<open>addLST\<close> takes band \<^verbatim>\<open>ST_B10\<close>, multiplies by 0.00341802,
  adds 149.0, subtracts 273, names the result \<^verbatim>\<open>LST\<close> and appends it.
\<close>

definition ndvi_expression :: "band \<Rightarrow> band \<Rightarrow> band" where
  "ndvi_expression NIR RED =
     map2 (\<lambda>nir red. ee_divide (px2 (-) nir red) (px2 (+) nir red)) NIR RED"

definition addNdvi :: "image \<Rightarrow> error + image" where
  "addNdvi img =
     (case select1 ''SR_B5'' img of
        Inl e \<Rightarrow> Inl e
      | Inr NIR \<Rightarrow>
          (case select1 ''SR_B4'' img of
             Inl e \<Rightarrow> Inl e
           | Inr RED \<Rightarrow> Inr (addBands img (''NDVI'', multiply (ndvi_expression NIR RED) 100))))"

definition addLST :: "image \<Rightarrow> error + image" where
  "addLST img =
     (case select1 ''ST_B10'' img of
        Inl e \<Rightarrow> Inl e
      | Inr b \<Rightarrow> Inr (addBands img (''LST'', subtract (add (multiply b 0.00341802) 149.0) 273)))"

section \<open>Scene filter and the derived collection\<close>

text \<open>
  The script builds its collection by one chain of calls on the archive:
  \<^verbatim>\<open>filterBounds(atlGeom)\<close>, \<^verbatim>\<open>filterDate('2014-01-01', '2023-12-31')\<close>,
  \<^verbatim>\<open>filter(ee.Filter.lt('CLOUD_COVER', 15))\<close>, \<^verbatim>\<open>map(addNdvi)\<close>, \<^verbatim>\<open>map(addLST)\<close>;
  \<open>landsatCollection\<close> is that chain, in that order, with those literals. The three
  filters are calls of the client library, each a filter on the collection that keeps the
  order of its input: \<^verbatim>\<open>filterBounds\<close> keeps the scenes whose footprint intersects the
  geometry, \<^verbatim>\<open>filterDate(start, end)\<close> those whose \<^verbatim>\<open>system:time_start\<close> lies in the
  interval with the start inclusive and the end exclusive, and
  \<^verbatim>\<open>filter(ee.Filter.lt(p, v))\<close> those whose property \<open>p\<close> is less than \<open>v\<close>. Timestamps
  are milliseconds since the epoch: the script's \<^verbatim>\<open>'2014-01-01'\<close> is 1388534400000 and
  \<^verbatim>\<open>'2023-12-31'\<close> is 1703980800000. Mapping a function over a collection fails as soon
  as it fails on one image. The archive \<^verbatim>\<open>LANDSAT/LC08/C02/T1_L2\<close> and the county geometry
  \<^verbatim>\<open>atlGeom\<close> come from the platform's catalogue and are inputs here.
\<close>

definition intersects :: "geometry \<Rightarrow> geometry \<Rightarrow> bool" where
  "intersects a b = (\<exists>c \<in> set a. c \<in> set b)"

definition filterBounds :: "geometry \<Rightarrow> image list \<Rightarrow> image list" where
  "filterBounds g coll = filter (\<lambda>s. intersects (footprint s) g) coll"

definition filterDate :: "int \<Rightarrow> int \<Rightarrow> image list \<Rightarrow> image list" where
  "filterDate start finish coll = filter (\<lambda>s. start \<le> time_start s \<and> time_start s < finish) coll"

definition filter_lt :: "(image \<Rightarrow> real) \<Rightarrow> real \<Rightarrow> image list \<Rightarrow> image list" where
  "filter_lt property v coll = filter (\<lambda>s. property s < v) coll"

fun map_results :: "('a \<Rightarrow> error + 'b) \<Rightarrow> 'a list \<Rightarrow> error + 'b list" where
  "map_results f [] = Inr []"
| "map_results f (x # xs) =
     (case f x of
        Inl e \<Rightarrow> Inl e
      | Inr y \<Rightarrow> (case map_results f xs of Inl e \<Rightarrow> Inl e | Inr ys \<Rightarrow> Inr (y # ys)))"

definition date_2014_01_01 :: int where
  "date_2014_01_01 = 1388534400000"

definition date_2023_12_31 :: int where
  "date_2023_12_31 = 1703980800000"

definition landsatCollection :: "image list \<Rightarrow> geometry \<Rightarrow> error + image list" where
  "landsatCollection archive atlGeom =
     (case map_results addNdvi
             (filter_lt CLOUD_COVER 15
               (filterDate date_2014_01_01 date_2023_12_31 (filterBounds atlGeom archive))) of
        Inl e \<Rightarrow> Inl e
      | Inr c \<Rightarrow> map_results addLST c)"

definition select_collection :: "string list \<Rightarrow> image list \<Rightarrow> error + image list" where
  "select_collection ns coll = map_results (select ns) coll"

section \<open>Median composites\<close>

text \<open>
  Modelled from the spec: the reducer behind \<^verbatim>\<open>ImageCollection.median()\<close> is platform code.
  Following section 4.3, an output pixel is the median of the valid values of that pixel
  across the scenes, the mean of the two central order statistics when their number is
  even, and no-data when no scene has a valid value there.
\<close>

fun valid :: "pixel list \<Rightarrow> real list" where
  "valid [] = []"
| "valid (None # ps) = valid ps"
| "valid (Some x # ps) = x # valid ps"

definition median_reducer :: "pixel list \<Rightarrow> pixel" where
  "median_reducer ps =
     (let vs = sort (valid ps); n = length vs
      in if n = 0 then None
         else if odd n then Some (vs ! (n div 2))
         else Some ((vs ! (n div 2 - 1) + vs ! (n div 2)) / 2))"

definition grid_size :: "band list \<Rightarrow> nat" where
  "grid_size bs = foldr max (map length bs) 0"

definition median_band :: "band list \<Rightarrow> band" where
  "median_band bs = map (\<lambda>i. median_reducer (map (\<lambda>b. pixel_at b i) bs)) [0..<grid_size bs]"

definition band_stack :: "string \<Rightarrow> image list \<Rightarrow> band list" where
  "band_stack n coll = map (\<lambda>s. case map_of (bands s) n of None \<Rightarrow> [] | Some b \<Rightarrow> b) coll"

definition median :: "image list \<Rightarrow> (string \<times> band) list" where
  "median coll =
     (case coll of
        [] \<Rightarrow> []
      | img # _ \<Rightarrow> map (\<lambda>n. (n, median_band (band_stack n coll))) (bandNames img))"

text \<open>
  \<^verbatim>\<open>clip(geometry)\<close> masks every pixel outside the geometry.
\<close>

definition clip_band :: "geometry \<Rightarrow> band \<Rightarrow> band" where
  "clip_band g b = map (\<lambda>i. if i \<in> set g then pixel_at b i else None) [0..<length b]"

definition clip :: "geometry \<Rightarrow> (string \<times> band) list \<Rightarrow> (string \<times> band) list" where
  "clip g bs = map (\<lambda>nb. (fst nb, clip_band g (snd nb))) bs"

definition trueColorImage :: "image list \<Rightarrow> geometry \<Rightarrow> error + (string \<times> band) list" where
  "trueColorImage coll atlGeom =
     (case select_collection [''SR_B4'', ''SR_B3'', ''SR_B2''] coll of
        Inl e \<Rightarrow> Inl e
      | Inr c \<Rightarrow> Inr (clip atlGeom (median c)))"

definition ndviImage :: "image list \<Rightarrow> geometry \<Rightarrow> error + (string \<times> band) list" where
  "ndviImage coll atlGeom =
     (case select_collection [''NDVI''] coll of
        Inl e \<Rightarrow> Inl e
      | Inr c \<Rightarrow> Inr (clip atlGeom (median c)))"

definition lstImage :: "image list \<Rightarrow> geometry \<Rightarrow> error + (string \<times> band) list" where
  "lstImage coll atlGeom =
     (case select_collection [''LST''] coll of
        Inl e \<Rightarrow> Inl e
      | Inr c \<Rightarrow> Inr (clip atlGeom (median c)))"

section \<open>Zonal time series\<close>

text \<open>
  \<^verbatim>\<open>ui.Chart.image.series\<close> reduces every image of the collection over the region at the
  nominal scale and labels the result with the image's \<^verbatim>\<open>system:time_start\<close>. How the
  platform resamples a band to the nominal scale and picks the pixels inside the region is
  not in the script: it is the parameter \<open>smp\<close>, and \<open>native_sample\<close> is the instance that
  reads the band on its own grid.
\<close>

type_synonym sampler = "nat \<Rightarrow> geometry \<Rightarrow> band \<Rightarrow> pixel list"

definition native_sample :: sampler where
  "native_sample scale g b = map (pixel_at b) g"

datatype reducer = Mean | PearsonsCorrelation

text \<open>
  Modelled from the spec: the reducers \<^verbatim>\<open>ee.Reducer.mean()\<close> and
  \<^verbatim>\<open>ee.Reducer.pearsonsCorrelation()\<close> are platform code. Following sections 4.4 and 4.5,
  the mean is the unweighted mean of the valid pixels and no-data when there is none; the
  correlation is Pearson's r over the pixel pairs valid in both bands, and no-data with
  fewer than two pairs or with zero variance in either band. The reducer's second output,
  the p-value, is not part of the model.
\<close>

definition mean_of :: "real list \<Rightarrow> real" where
  "mean_of xs = sum_list xs / real (length xs)"

definition mean_reducer :: "pixel list \<Rightarrow> real option" where
  "mean_reducer ps = (if valid ps = [] then None else Some (mean_of (valid ps)))"

fun both_valid :: "(pixel \<times> pixel) list \<Rightarrow> (real \<times> real) list" where
  "both_valid [] = []"
| "both_valid ((Some x, Some y) # ps) = (x, y) # both_valid ps"
| "both_valid (_ # ps) = both_valid ps"

definition valid_pairs :: "pixel list \<Rightarrow> pixel list \<Rightarrow> (real \<times> real) list" where
  "valid_pairs xs ys = both_valid (zip xs ys)"

definition pearsonsCorrelation :: "(real \<times> real) list \<Rightarrow> real option" where
  "pearsonsCorrelation ps =
     (let xs = map fst ps; ys = map snd ps;
          mx = mean_of xs; my = mean_of ys;
          sxy = sum_list (map (\<lambda>p. (fst p - mx) * (snd p - my)) ps);
          sxx = sum_list (map (\<lambda>x. (x - mx)\<^sup>2) xs);
          syy = sum_list (map (\<lambda>y. (y - my)\<^sup>2) ys)
      in if length ps < 2 \<or> sxx = 0 \<or> syy = 0 then None
         else Some (sxy / sqrt (sxx * syy)))"

text \<open>
  Modelled from the spec: \<^verbatim>\<open>ui.Chart.image.series\<close> is platform code. Following sections
  4.4 and 4.5, it gives one entry per scene, in the order of the collection: the scene's
  timestamp with what the reducer returns over the region. The mean reducer gives one
  value per band of the image; the correlation reducer takes exactly two bands. The chart
  options of the script (titles, colours, series names) are presentation only.
\<close>

definition reduceRegion ::
  "sampler \<Rightarrow> reducer \<Rightarrow> geometry \<Rightarrow> nat \<Rightarrow> image \<Rightarrow> error + (string \<times> real option) list" where
  "reduceRegion smp r region scale img =
     (case r of
        Mean \<Rightarrow> Inr (map (\<lambda>nb. (fst nb, mean_reducer (smp scale region (snd nb)))) (bands img))
      | PearsonsCorrelation \<Rightarrow>
          (case bands img of
             [x, y] \<Rightarrow>
               Inr [(''correlation'',
                     pearsonsCorrelation
                       (valid_pairs (smp scale region (snd x)) (smp scale region (snd y))))]
           | bs \<Rightarrow> Inl (ReducerInputs (length bs))))"

definition series_entry ::
  "sampler \<Rightarrow> geometry \<Rightarrow> reducer \<Rightarrow> nat \<Rightarrow> image \<Rightarrow> error + int \<times> (string \<times> real option) list" where
  "series_entry smp region r scale img =
     (case reduceRegion smp r region scale img of
        Inl e \<Rightarrow> Inl e
      | Inr vs \<Rightarrow> Inr (time_start img, vs))"

definition image_series ::
  "sampler \<Rightarrow> image list \<Rightarrow> geometry \<Rightarrow> reducer \<Rightarrow> nat
     \<Rightarrow> error + (int \<times> (string \<times> real option) list) list" where
  "image_series smp coll region r scale = map_results (series_entry smp region r scale) coll"

text \<open>
  The script draws one trend chart and one correlation chart for the county and for each
  land-cover region (\<^verbatim>\<open>urban\<close>, \<^verbatim>\<open>resArea\<close>, \<^verbatim>\<open>highways\<close>, \<^verbatim>\<open>commercial\<close>, \<^verbatim>\<open>vegetation\<close>,
  \<^verbatim>\<open>waterbodies\<close>, \<^verbatim>\<open>bareSoil\<close>), each time with the same arguments but the region, so the
  region is the argument of the two chart functions.
\<close>

definition atlTrnd ::
  "sampler \<Rightarrow> image list \<Rightarrow> geometry \<Rightarrow> error + (int \<times> (string \<times> real option) list) list" where
  "atlTrnd smp coll region =
     (case select_collection [''NDVI'', ''LST''] coll of
        Inl e \<Rightarrow> Inl e
      | Inr c \<Rightarrow> image_series smp c region Mean 500)"

definition correlChart ::
  "sampler \<Rightarrow> image list \<Rightarrow> geometry \<Rightarrow> error + (int \<times> (string \<times> real option) list) list" where
  "correlChart smp coll region =
     (case select_collection [''LST'', ''NDVI''] coll of
        Inl e \<Rightarrow> Inl e
      | Inr c \<Rightarrow> image_series smp c region PearsonsCorrelation 30)"

section \<open>The two orders of derivation\<close>

text \<open>
  The script maps \<^verbatim>\<open>addNdvi\<close> over the collection and then \<^verbatim>\<open>addLST\<close>; per image that is
  \<open>ndvi_then_lst\<close>. \<open>lst_then_ndvi\<close> is the other order.
\<close>

definition ndvi_then_lst :: "image \<Rightarrow> error + image" where
  "ndvi_then_lst img = (case addNdvi img of Inl e \<Rightarrow> Inl e | Inr a \<Rightarrow> addLST a)"

definition lst_then_ndvi :: "image \<Rightarrow> error + image" where
  "lst_then_ndvi img = (case addLST img of Inl e \<Rightarrow> Inl e | Inr a \<Rightarrow> addNdvi a)"

section \<open>The pipeline as the spec configures it\<close>

text \<open>
  Section 6 of the spec asks for a configuration surface: date interval, cloud-cover
  threshold, band-name mapping, radiometric constants, NDVI scale factor and the two
  analysis resolutions. The definitions \<open>configured_...\<close> follow those words: they are the
  script's functions with every such value read from a configuration record. They are not
  in the script; \<open>script_config\<close> collects the literals the script uses.
\<close>

record config =
  cfg_start :: int
  cfg_end :: int
  cfg_cloud :: real
  cfg_NIR :: string
  cfg_RED :: string
  cfg_thermal :: string
  cfg_thermal_scale :: real
  cfg_thermal_offset :: real
  cfg_kelvin :: real
  cfg_ndvi_scale :: real
  cfg_mean_resolution :: nat
  cfg_correlation_resolution :: nat

definition configured_addNdvi :: "config \<Rightarrow> image \<Rightarrow> error + image" where
  "configured_addNdvi cfg img =
     (case select1 (cfg_NIR cfg) img of
        Inl e \<Rightarrow> Inl e
      | Inr NIR \<Rightarrow>
          (case select1 (cfg_RED cfg) img of
             Inl e \<Rightarrow> Inl e
           | Inr RED \<Rightarrow>
               Inr (addBands img (''NDVI'', multiply (ndvi_expression NIR RED) (cfg_ndvi_scale cfg)))))"

definition configured_addLST :: "config \<Rightarrow> image \<Rightarrow> error + image" where
  "configured_addLST cfg img =
     (case select1 (cfg_thermal cfg) img of
        Inl e \<Rightarrow> Inl e
      | Inr b \<Rightarrow>
          Inr (addBands img (''LST'',
                 subtract (add (multiply b (cfg_thermal_scale cfg)) (cfg_thermal_offset cfg))
                   (cfg_kelvin cfg))))"

definition configured_collection :: "config \<Rightarrow> image list \<Rightarrow> geometry \<Rightarrow> error + image list" where
  "configured_collection cfg archive region =
     (case map_results (configured_addNdvi cfg)
             (filter_lt CLOUD_COVER (cfg_cloud cfg)
               (filterDate (cfg_start cfg) (cfg_end cfg) (filterBounds region archive))) of
        Inl e \<Rightarrow> Inl e
      | Inr c \<Rightarrow> map_results (configured_addLST cfg) c)"

definition configured_trend ::
  "config \<Rightarrow> sampler \<Rightarrow> image list \<Rightarrow> geometry
     \<Rightarrow> error + (int \<times> (string \<times> real option) list) list" where
  "configured_trend cfg smp coll region =
     (case select_collection [''NDVI'', ''LST''] coll of
        Inl e \<Rightarrow> Inl e
      | Inr c \<Rightarrow> image_series smp c region Mean (cfg_mean_resolution cfg))"

definition configured_correlation ::
  "config \<Rightarrow> sampler \<Rightarrow> image list \<Rightarrow> geometry
     \<Rightarrow> error + (int \<times> (string \<times> real option) list) list" where
  "configured_correlation cfg smp coll region =
     (case select_collection [''LST'', ''NDVI''] coll of
        Inl e \<Rightarrow> Inl e
      | Inr c \<Rightarrow> image_series smp c region PearsonsCorrelation (cfg_correlation_resolution cfg))"

definition script_config :: config where
  "script_config =
     \<lparr>cfg_start = date_2014_01_01, cfg_end = date_2023_12_31, cfg_cloud = 15,
      cfg_NIR = ''SR_B5'', cfg_RED = ''SR_B4'', cfg_thermal = ''ST_B10'',
      cfg_thermal_scale = 0.00341802, cfg_thermal_offset = 149.0, cfg_kelvin = 273,
      cfg_ndvi_scale = 100, cfg_mean_resolution = 500, cfg_correlation_resolution = 30\<rparr>"

section \<open>Example data\<close>

definition example_scene :: image where
  "example_scene = \<lparr>time_start = 1400000000000, CLOUD_COVER = 3, footprint = [0, 1, 2, 3],
     bands = [(''SR_B4'', [Some 0, Some 5, None, Some 1]),
              (''SR_B5'', [Some 0, Some 5, Some 7, Some 3]),
              (''ST_B10'', [Some 30000, None, Some 0, Some 100])]\<rparr>"

definition example_with_ndvi :: image where
  "example_with_ndvi =
     example_scene\<lparr>bands := bands example_scene @ [(''NDVI'', [None, Some 0, None, Some 50])]\<rparr>"

definition example_derived :: image where
  "example_derived =
     example_with_ndvi\<lparr>bands := bands example_with_ndvi @
        [(''LST'', [Some (- 21.4594), None, Some (- 124), Some (- 123.658198)])]\<rparr>"

definition scene_ok :: image where
  "scene_ok = \<lparr>time_start = 1500000000000, CLOUD_COVER = 14.9, footprint = [2, 3],
     bands = [(''SR_B4'', [Some 1, Some 2, Some 3, Some 4]),
              (''SR_B5'', [Some 3, Some 2, Some 9, Some 4]),
              (''ST_B10'', [Some 40000, Some 41000, None, Some 43000])]\<rparr>"

definition example_archive :: "image list" where
  "example_archive =
     [scene_ok\<lparr>time_start := 1388534399999\<rparr>,
      scene_ok\<lparr>time_start := 1388534400000\<rparr>,
      scene_ok\<lparr>footprint := [7, 8]\<rparr>,
      scene_ok,
      scene_ok\<lparr>time_start := 1600000000000, CLOUD_COVER := 15\<rparr>,
      scene_ok\<lparr>time_start := 1703980800000\<rparr>]"

definition scene_ok_derived :: image where
  "scene_ok_derived =
     scene_ok\<lparr>bands := bands scene_ok @
        [(''NDVI'', [Some 50, Some 0, Some 50, Some 0]),
         (''LST'', [Some 12.7208, Some 16.13882, None, Some 22.97486])]\<rparr>"

definition example_collection :: "image list" where
  "example_collection = [scene_ok_derived\<lparr>time_start := 1388534400000\<rparr>, scene_ok_derived]"

definition scene_anti :: image where
  "scene_anti = \<lparr>time_start = 1450000000000, CLOUD_COVER = 1, footprint = [0, 1, 2],
     bands = [(''SR_B4'', [Some 1, Some 2, Some 3]), (''SR_B5'', [Some 3, Some 2, Some 1]),
              (''ST_B10'', [Some 40000, Some 41000, Some 42000]),
              (''NDVI'', [Some 50, Some 0, Some (- 50)]),
              (''LST'', [Some 12.7208, Some 16.13882, Some 19.55684])]\<rparr>"

definition scene_anti_raw :: image where
  "scene_anti_raw = \<lparr>time_start = 1450000000000, CLOUD_COVER = 1, footprint = [0, 1, 2],
     bands = [(''SR_B4'', [Some 1, Some 2, Some 3]), (''SR_B5'', [Some 3, Some 2, Some 1]),
              (''ST_B10'', [Some 40000, Some 41000, Some 42000])]\<rparr>"

definition scene_flat :: image where
  "scene_flat = \<lparr>time_start = 1460000000000, CLOUD_COVER = 2, footprint = [0, 1, 2],
     bands = [(''SR_B4'', [Some 2, Some 2, Some 2]), (''SR_B5'', [Some 2, Some 2, Some 2]),
              (''ST_B10'', [Some 40000, Some 41000, Some 42000]),
              (''NDVI'', [Some 0, Some 0, Some 0]),
              (''LST'', [Some 12.7208, Some 16.13882, Some 19.55684])]\<rparr>"

definition composite_a :: image where
  "composite_a = \<lparr>time_start = 1400000000000, CLOUD_COVER = 3, footprint = [0, 1, 2],
     bands = [(''SR_B4'', [Some 1, Some 2, Some 3]), (''NDVI'', [Some 10, None, Some 1]),
              (''LST'', [Some 30, Some 31, None])]\<rparr>"

definition composite_b :: image where
  "composite_b = \<lparr>time_start = 1410000000000, CLOUD_COVER = 4, footprint = [0, 1, 2],
     bands = [(''SR_B4'', [Some 4, Some 5, Some 6]), (''NDVI'', [Some 20, None, None]),
              (''LST'', [Some 20, Some 33, None])]\<rparr>"

section \<open>Bands of an image: selecting and appending\<close>

lemma select1_addBands_old:
  "select1 n img = Inr b \<Longrightarrow> select1 n (addBands img nb) = Inr b"
  by (auto simp: select1_def addBands_def map_add_def split: option.splits)

lemma select1_addBands_new:
  "fst nb \<notin> set (bandNames img) \<Longrightarrow> select1 (fst nb) (addBands img nb) = Inr (snd nb)"
proof -
  assume a: "fst nb \<notin> set (bandNames img)"
  then have "map_of (bands img) (fst nb) = None"
    by (simp add: bandNames_def map_of_eq_None_iff)
  with a show ?thesis
    by (simp add: select1_def addBands_def map_add_def fresh_name_def)
qed

lemma addBands_metadata:
  "time_start (addBands img nb) = time_start img"
  "CLOUD_COVER (addBands img nb) = CLOUD_COVER img"
  "footprint (addBands img nb) = footprint img"
  by (simp_all add: addBands_def)

lemma bands_addBands:
  "bands (addBands img nb) = bands img @ [(fresh_name (fst nb) (bandNames img), snd nb)]"
  by (simp add: addBands_def)

lemma addBands_addBands:
  "addBands (addBands img nb) mb =
     img\<lparr>bands := bands img @ [(fresh_name (fst nb) (bandNames img), snd nb),
        (fresh_name (fst mb) (bandNames img @ [fresh_name (fst nb) (bandNames img)]), snd mb)]\<rparr>"
  by (simp add: addBands_def bandNames_def)

text \<open>
  The name \<open>addBands\<close> gives to the incoming band is never one the image already has:
  numbers print differently, and the search tries one suffix more than there are names
  carrying the prefix.
\<close>

lemma digit_value_nth: "d < 10 \<Longrightarrow> digit_value (''0123456789'' ! d) = d"
  by (auto simp: eval_nat_numeral less_Suc_eq digit_value_def)

lemma nat_of_string_of_nat: "nat_of_string (string_of_nat n) = n"
proof (induction n rule: string_of_nat.induct)
  case (1 n)
  show ?case
  proof (cases "n < 10")
    case True
    then show ?thesis
      by (subst string_of_nat.simps) (simp add: nat_of_string_def digit_value_nth)
  next
    case False
    with 1 have "nat_of_string (string_of_nat (n div 10)) = n div 10" by simp
    with False show ?thesis
      by (subst string_of_nat.simps) (simp add: nat_of_string_def digit_value_nth)
  qed
qed

lemma string_of_nat_inject: "string_of_nat a = string_of_nat b \<longleftrightarrow> a = b"
  by (metis nat_of_string_of_nat)

lemma finite_suffixes: "finite {j. k \<le> j \<and> n @ ''_'' @ string_of_nat j \<in> set ns}"
proof (rule finite_subset)
  show "{j. k \<le> j \<and> n @ ''_'' @ string_of_nat j \<in> set ns}
      \<subseteq> (\<lambda>s. nat_of_string (drop (length n + 1) s)) ` set ns"
  proof
    fix j
    assume "j \<in> {j. k \<le> j \<and> n @ ''_'' @ string_of_nat j \<in> set ns}"
    then have m: "n @ ''_'' @ string_of_nat j \<in> set ns" by simp
    have "nat_of_string (drop (length n + 1) (n @ ''_'' @ string_of_nat j)) = j"
      by (simp add: nat_of_string_of_nat)
    then have "j = (\<lambda>s. nat_of_string (drop (length n + 1) s)) (n @ ''_'' @ string_of_nat j)"
      by simp
    with m show "j \<in> (\<lambda>s. nat_of_string (drop (length n + 1) s)) ` set ns"
      by (rule image_eqI [rotated])
  qed
  show "finite ((\<lambda>s. nat_of_string (drop (length n + 1) s)) ` set ns)" by simp
qed

lemma suffix_search_fresh:
  "card {j. k \<le> j \<and> n @ ''_'' @ string_of_nat j \<in> set ns} \<le> fuel \<Longrightarrow>
   suffix_search n ns k fuel \<notin> set ns"
proof (induction fuel arbitrary: k)
  case 0
  with finite_suffixes [of k n ns]
  have "{j. k \<le> j \<and> n @ ''_'' @ string_of_nat j \<in> set ns} = {}" by simp
  then have "n @ ''_'' @ string_of_nat k \<notin> set ns" by blast
  then show ?case by simp
next
  case (Suc fuel)
  show ?case
  proof (cases "n @ ''_'' @ string_of_nat k \<in> set ns")
    case True
    have "{j. Suc k \<le> j \<and> n @ ''_'' @ string_of_nat j \<in> set ns}
        = {j. k \<le> j \<and> n @ ''_'' @ string_of_nat j \<in> set ns} - {k}"
      by auto
    moreover have "k \<in> {j. k \<le> j \<and> n @ ''_'' @ string_of_nat j \<in> set ns}"
      using True by simp
    ultimately have "card {j. Suc k \<le> j \<and> n @ ''_'' @ string_of_nat j \<in> set ns} \<le> fuel"
      using Suc.prems finite_suffixes [of k n ns] by (simp add: card_Diff_singleton)
    then have "suffix_search n ns (Suc k) fuel \<notin> set ns" by (rule Suc.IH)
    with True show ?thesis by simp
  next
    case False
    then show ?thesis by simp
  qed
qed

lemma fresh_name_fresh: "fresh_name n ns \<notin> set ns"
proof (cases "n \<in> set ns")
  case False
  then show ?thesis by (simp add: fresh_name_def)
next
  case True
  let ?J = "{j. 1 \<le> j \<and> n @ ''_'' @ string_of_nat j \<in> set ns}"
  have "(\<lambda>j. n @ ''_'' @ string_of_nat j) ` ?J \<subseteq> set (filter (prefix (n @ ''_'')) ns)"
    by auto
  then have "card ((\<lambda>j. n @ ''_'' @ string_of_nat j) ` ?J) \<le> card (set (filter (prefix (n @ ''_'')) ns))"
    by (intro card_mono) simp_all
  also have "\<dots> \<le> length (filter (prefix (n @ ''_'')) ns)" by (rule card_length)
  finally have "card ((\<lambda>j. n @ ''_'' @ string_of_nat j) ` ?J) \<le> length (filter (prefix (n @ ''_'')) ns)" .
  moreover have "inj_on (\<lambda>j. n @ ''_'' @ string_of_nat j) ?J"
    by (auto simp: inj_on_def string_of_nat_inject)
  ultimately have "card ?J \<le> length (filter (prefix (n @ ''_'')) ns)"
    by (simp add: card_image)
  then have "suffix_search n ns 1 (length (filter (prefix (n @ ''_'')) ns)) \<notin> set ns"
    by (rule suffix_search_fresh)
  with True show ?thesis by (simp add: fresh_name_def)
qed

lemma addBands_distinct:
  "distinct (bandNames img) \<Longrightarrow> distinct (bandNames (addBands img nb))"
  using fresh_name_fresh [of "fst nb" "map fst (bands img)"]
  by (simp add: bandNames_def addBands_def)

text \<open>
  A name of another family (another first character) never disturbs the search for a fresh
  name, and a fresh name starts like the name asked for.
\<close>

lemma suffix_search_append_other:
  "n \<noteq> [] \<Longrightarrow> hd n \<noteq> hd m \<Longrightarrow> suffix_search n (ns @ [m]) k f = suffix_search n ns k f"
proof (induction f arbitrary: k)
  case 0
  then show ?case by simp
next
  case (Suc f)
  from Suc.prems have "n @ ''_'' @ string_of_nat k \<noteq> m"
    by (metis hd_append2)
  with Suc show ?case by simp
qed

lemma fresh_name_append_other:
  assumes "n \<noteq> []" and "hd n \<noteq> hd m"
  shows "fresh_name n (ns @ [m]) = fresh_name n ns"
proof -
  have "n \<noteq> m" using assms by auto
  moreover have "\<not> prefix (n @ ''_'') m"
    using assms by (metis hd_append2 prefix_def Nil_is_append_conv)
  ultimately show ?thesis
    using assms by (simp add: fresh_name_def suffix_search_append_other)
qed

lemma hd_suffix_search: "n \<noteq> [] \<Longrightarrow> hd (suffix_search n ns k f) = hd n"
  by (induction f arbitrary: k) auto

lemma hd_fresh_name: "n \<noteq> [] \<Longrightarrow> hd (fresh_name n ns) = hd n"
  by (simp add: fresh_name_def hd_suffix_search)

lemma select1_addBands_other:
  assumes "fst nb \<noteq> []" and "hd n \<noteq> hd (fst nb)"
  shows "select1 n (addBands img nb) = select1 n img"
proof -
  have "fresh_name (fst nb) (bandNames img) \<noteq> n"
    using assms hd_fresh_name [of "fst nb" "bandNames img"] by auto
  then show ?thesis
    by (auto simp: select1_def addBands_def map_add_def split: option.splits)
qed

lemma select1_swap:
  assumes "a \<noteq> b"
  shows "select1 n (img\<lparr>bands := xs @ [(a, x), (b, y)]\<rparr>) =
         select1 n (img\<lparr>bands := xs @ [(b, y), (a, x)]\<rparr>)"
proof -
  have "map_of (xs @ [(a, x), (b, y)]) n = map_of (xs @ [(b, y), (a, x)]) n"
    using assms by (auto simp: map_add_def split: option.splits)
  then show ?thesis by (simp add: select1_def)
qed

section \<open>Per-pixel values of the derived bands\<close>

lemma pixel_at_multiply: "pixel_at (multiply b c) i = map_option (\<lambda>x. x * c) (pixel_at b i)"
  by (simp add: pixel_at_def multiply_def)

lemma pixel_at_add: "pixel_at (add b c) i = map_option (\<lambda>x. x + c) (pixel_at b i)"
  by (simp add: pixel_at_def add_def)

lemma pixel_at_subtract: "pixel_at (subtract b c) i = map_option (\<lambda>x. x - c) (pixel_at b i)"
  by (simp add: pixel_at_def subtract_def)

lemma pixel_at_ndvi_expression_Some:
  "pixel_at NIR i = Some n \<Longrightarrow> pixel_at RED i = Some r \<Longrightarrow>
   pixel_at (ndvi_expression NIR RED) i = (if n + r = 0 then None else Some ((n - r) / (n + r)))"
  by (auto simp: pixel_at_def ndvi_expression_def px2_def ee_divide_def split: if_splits)

lemma pixel_at_ndvi_expression_None:
  "pixel_at NIR i = None \<or> pixel_at RED i = None \<Longrightarrow>
   pixel_at (ndvi_expression NIR RED) i = None"
  by (auto simp: pixel_at_def ndvi_expression_def px2_def ee_divide_def
      split: if_splits option.splits)

lemma addNdvi_InrD:
  "addNdvi img = Inr a \<Longrightarrow>
   \<exists>NIR RED. select1 ''SR_B5'' img = Inr NIR \<and> select1 ''SR_B4'' img = Inr RED \<and>
      a = addBands img (''NDVI'', multiply (ndvi_expression NIR RED) 100)"
  by (auto simp: addNdvi_def split: sum.splits)

lemma addLST_InrD:
  "addLST img = Inr a \<Longrightarrow>
   \<exists>b. select1 ''ST_B10'' img = Inr b \<and>
      a = addBands img (''LST'', subtract (add (multiply b 0.00341802) 149.0) 273)"
  by (auto simp: addLST_def split: sum.splits)

text \<open>
  C3. For an image that carries \<^verbatim>\<open>SR_B5\<close> (NIR) and \<^verbatim>\<open>SR_B4\<close> (RED), \<open>addNdvi\<close> succeeds
  and appends one band with one pixel for every pixel the two inputs share. At a pixel
  valid in both inputs with \<open>NIR + RED \<noteq> 0\<close> its value is \<open>(NIR - RED) / (NIR + RED) * 100\<close>,
  which is exactly 0 when \<open>NIR = RED \<noteq> 0\<close>. At a pixel valid in both inputs with
  \<open>NIR + RED = 0\<close> the value is no-data: the script has no guard of its own, the marker is
  what the division gives there. A pixel masked in either input is masked in the result.
  Where the image has no band called \<^verbatim>\<open>NDVI\<close> yet, the appended band is the one
  \<^verbatim>\<open>select('NDVI')\<close> returns.
\<close>

theorem ndvi_band_formula:
  assumes "select1 ''SR_B5'' img = Inr NIR" and "select1 ''SR_B4'' img = Inr RED"
  shows "\<exists>ndvi. addNdvi img = Inr (addBands img (''NDVI'', ndvi)) \<and>
           length ndvi = min (length NIR) (length RED) \<and>
           (\<forall>i n r. pixel_at NIR i = Some n \<and> pixel_at RED i = Some r \<and> n + r \<noteq> 0 \<longrightarrow>
                pixel_at ndvi i = Some ((n - r) / (n + r) * 100)) \<and>
           (\<forall>i n. pixel_at NIR i = Some n \<and> pixel_at RED i = Some n \<and> n \<noteq> 0 \<longrightarrow>
                pixel_at ndvi i = Some 0) \<and>
           (\<forall>i n r. pixel_at NIR i = Some n \<and> pixel_at RED i = Some r \<and> n + r = 0 \<longrightarrow>
                pixel_at ndvi i = None) \<and>
           (\<forall>i. pixel_at NIR i = None \<or> pixel_at RED i = None \<longrightarrow> pixel_at ndvi i = None) \<and>
           (''NDVI'' \<notin> set (bandNames img) \<longrightarrow>
                select1 ''NDVI'' (addBands img (''NDVI'', ndvi)) = Inr ndvi)"
proof -
  let ?ndvi = "multiply (ndvi_expression NIR RED) 100"
  have 1: "addNdvi img = Inr (addBands img (''NDVI'', ?ndvi))"
    using assms by (simp add: addNdvi_def)
  have 0: "length ?ndvi = min (length NIR) (length RED)"
    by (simp add: multiply_def ndvi_expression_def)
  have 2: "pixel_at ?ndvi i = Some ((n - r) / (n + r) * 100)"
    if "pixel_at NIR i = Some n" "pixel_at RED i = Some r" "n + r \<noteq> 0" for i n r
    using that by (simp add: pixel_at_multiply pixel_at_ndvi_expression_Some)
  have 3: "pixel_at ?ndvi i = Some 0"
    if "pixel_at NIR i = Some n" "pixel_at RED i = Some n" "n \<noteq> 0" for i n
    using that by (simp add: pixel_at_multiply pixel_at_ndvi_expression_Some)
  have 4: "pixel_at ?ndvi i = None"
    if "pixel_at NIR i = Some n" "pixel_at RED i = Some r" "n + r = 0" for i n r
    using that by (simp add: pixel_at_multiply pixel_at_ndvi_expression_Some)
  have 5: "pixel_at ?ndvi i = None" if "pixel_at NIR i = None \<or> pixel_at RED i = None" for i
    using that by (simp add: pixel_at_multiply pixel_at_ndvi_expression_None)
  have 6: "select1 ''NDVI'' (addBands img (''NDVI'', ?ndvi)) = Inr ?ndvi"
    if "''NDVI'' \<notin> set (bandNames img)"
    using select1_addBands_new [of "(''NDVI'', ?ndvi)" img] that by simp
  from 0 1 2 3 4 5 6 show ?thesis by blast
qed

theorem ndvi_band_formula_witness:
  "select1 ''SR_B5'' example_scene = Inr [Some 0, Some 5, Some 7, Some 3] \<and>
   select1 ''SR_B4'' example_scene = Inr [Some 0, Some 5, None, Some 1] \<and>
   (\<exists>ndvi. addNdvi example_scene = Inr (addBands example_scene (''NDVI'', ndvi)) \<and>
      length ndvi = 4 \<and>
      pixel_at ndvi 0 = None \<and> pixel_at ndvi 1 = Some 0 \<and> pixel_at ndvi 2 = None \<and>
      pixel_at ndvi 3 = Some 50 \<and>
      select1 ''NDVI'' (addBands example_scene (''NDVI'', ndvi)) = Inr ndvi)"
proof -
  let ?NIR = "[Some 0, Some 5, Some 7, Some (3::real)]"
  let ?RED = "[Some 0, Some 5, None, Some (1::real)]"
  have h1: "select1 ''SR_B5'' example_scene = Inr ?NIR"
    and h2: "select1 ''SR_B4'' example_scene = Inr ?RED"
    by (simp_all add: select1_def example_scene_def)
  have fresh: "''NDVI'' \<notin> set (bandNames example_scene)"
    by (simp add: bandNames_def example_scene_def)
  from ndvi_band_formula [OF h1 h2] obtain ndvi where
    a: "addNdvi example_scene = Inr (addBands example_scene (''NDVI'', ndvi))" and
    l: "length ndvi = min (length ?NIR) (length ?RED)" and
    f: "\<forall>i n r. pixel_at ?NIR i = Some n \<and> pixel_at ?RED i = Some r \<and> n + r \<noteq> 0 \<longrightarrow>
           pixel_at ndvi i = Some ((n - r) / (n + r) * 100)" and
    q: "\<forall>i n. pixel_at ?NIR i = Some n \<and> pixel_at ?RED i = Some n \<and> n \<noteq> 0 \<longrightarrow>
           pixel_at ndvi i = Some 0" and
    z: "\<forall>i n r. pixel_at ?NIR i = Some n \<and> pixel_at ?RED i = Some r \<and> n + r = 0 \<longrightarrow>
           pixel_at ndvi i = None" and
    m: "\<forall>i. pixel_at ?NIR i = None \<or> pixel_at ?RED i = None \<longrightarrow> pixel_at ndvi i = None" and
    s: "''NDVI'' \<notin> set (bandNames example_scene) \<longrightarrow>
           select1 ''NDVI'' (addBands example_scene (''NDVI'', ndvi)) = Inr ndvi"
    by (elim exE conjE)
  have n0: "pixel_at ?NIR 0 = Some 0" and n1: "pixel_at ?NIR 1 = Some 5"
    and n3: "pixel_at ?NIR 3 = Some 3"
    by (simp_all add: pixel_at_def)
  have r0: "pixel_at ?RED 0 = Some 0" and r1: "pixel_at ?RED 1 = Some 5"
    and r2: "pixel_at ?RED 2 = None" and r3: "pixel_at ?RED 3 = Some 1"
    by (simp_all add: pixel_at_def)
  from l have "length ndvi = 4" by simp
  moreover have "pixel_at ndvi 0 = None"
    using z [rule_format, of 0 0 0] n0 r0 by simp
  moreover have "pixel_at ndvi 1 = Some 0"
    using q [rule_format, of 1 5] n1 r1 by simp
  moreover have "pixel_at ndvi 2 = None"
    using m r2 by blast
  moreover have "pixel_at ndvi 3 = Some 50"
    using f [rule_format, of 3 3 1] n3 r3 by simp
  moreover have "select1 ''NDVI'' (addBands example_scene (''NDVI'', ndvi)) = Inr ndvi"
    using s fresh by (rule mp)
  ultimately show ?thesis
    using h1 h2 a by (intro conjI exI [of _ ndvi])
qed

text \<open>
  C4. For an image that carries the thermal band \<^verbatim>\<open>ST_B10\<close>, \<open>addLST\<close> succeeds and appends
  one band whose value at every valid pixel with digital number \<open>d\<close> is
  \<open>d * 0.00341802 + 149.0 - 273\<close> (the constant is 273, not 273.15); a masked pixel stays
  masked. For \<open>d = 30000\<close> the value is exactly \<open>-21.4594\<close>.
\<close>

theorem lst_band_formula:
  assumes "select1 ''ST_B10'' img = Inr b"
  shows "\<exists>lst. addLST img = Inr (addBands img (''LST'', lst)) \<and> length lst = length b \<and>
           (\<forall>i d. pixel_at b i = Some d \<longrightarrow>
                pixel_at lst i = Some (d * 0.00341802 + 149.0 - 273.0)) \<and>
           (\<forall>i. pixel_at b i = None \<longrightarrow> pixel_at lst i = None) \<and>
           (''LST'' \<notin> set (bandNames img) \<longrightarrow>
                select1 ''LST'' (addBands img (''LST'', lst)) = Inr lst) \<and>
           subtract (add (multiply [Some 30000] 0.00341802) 149.0) 273 = [Some (- 21.4594)]"
proof -
  let ?lst = "subtract (add (multiply b 0.00341802) 149.0) 273"
  have 1: "addLST img = Inr (addBands img (''LST'', ?lst))"
    using assms by (simp add: addLST_def)
  have 2: "length ?lst = length b"
    by (simp add: subtract_def add_def multiply_def)
  have 3: "pixel_at ?lst i = Some (d * 0.00341802 + 149.0 - 273.0)"
    if "pixel_at b i = Some d" for i d
    using that by (simp add: pixel_at_subtract pixel_at_add pixel_at_multiply)
  have 4: "pixel_at ?lst i = None" if "pixel_at b i = None" for i
    using that by (simp add: pixel_at_subtract pixel_at_add pixel_at_multiply)
  have 5: "select1 ''LST'' (addBands img (''LST'', ?lst)) = Inr ?lst"
    if "''LST'' \<notin> set (bandNames img)"
    using select1_addBands_new [of "(''LST'', ?lst)" img] that by simp
  have 6: "subtract (add (multiply [Some 30000] 0.00341802) 149.0) 273 = [Some (- 21.4594)]"
    by (simp add: subtract_def add_def multiply_def)
  from 1 2 3 4 5 6 show ?thesis by blast
qed

theorem lst_band_formula_witness:
  "select1 ''ST_B10'' example_scene = Inr [Some 30000, None, Some 0, Some 100] \<and>
   (\<exists>lst. addLST example_scene = Inr (addBands example_scene (''LST'', lst)) \<and>
      pixel_at lst 0 = Some (- 21.4594) \<and> pixel_at lst 1 = None \<and>
      pixel_at lst 2 = Some (- 124) \<and> pixel_at lst 3 = Some (- 123.658198) \<and>
      select1 ''LST'' (addBands example_scene (''LST'', lst)) = Inr lst)"
proof -
  let ?b = "[Some 30000, None, Some 0, Some (100::real)]"
  have h: "select1 ''ST_B10'' example_scene = Inr ?b"
    by (simp add: select1_def example_scene_def)
  from lst_band_formula [OF h] obtain lst where
    a: "addLST example_scene = Inr (addBands example_scene (''LST'', lst))" and
    f: "\<forall>i d. pixel_at ?b i = Some d \<longrightarrow> pixel_at lst i = Some (d * 0.00341802 + 149.0 - 273.0)" and
    m: "\<forall>i. pixel_at ?b i = None \<longrightarrow> pixel_at lst i = None" and
    s: "''LST'' \<notin> set (bandNames example_scene) \<longrightarrow>
           select1 ''LST'' (addBands example_scene (''LST'', lst)) = Inr lst"
    by (elim exE conjE)
  have fresh: "''LST'' \<notin> set (bandNames example_scene)"
    by (simp add: bandNames_def example_scene_def)
  have p0: "pixel_at ?b 0 = Some 30000" and p1: "pixel_at ?b 1 = None"
    and p2: "pixel_at ?b 2 = Some 0" and p3: "pixel_at ?b 3 = Some 100"
    by (simp_all add: pixel_at_def)
  have "pixel_at lst 0 = Some (30000 * 0.00341802 + 149.0 - 273.0)"
    using f p0 by blast
  moreover have "pixel_at lst 2 = Some (0 * 0.00341802 + 149.0 - 273.0)"
    using f p2 by blast
  moreover have "pixel_at lst 3 = Some (100 * 0.00341802 + 149.0 - 273.0)"
    using f p3 by blast
  moreover have "pixel_at lst 1 = None"
    using m p1 by blast
  moreover have "select1 ''LST'' (addBands example_scene (''LST'', lst)) = Inr lst"
    using s fresh by (rule mp)
  ultimately show ?thesis using h a by (intro conjI exI [of _ lst]) simp_all
qed

text \<open>
  C8. For every scene that carries the three raw bands the derivation succeeds and only
  appends: the band list of the result is the band list of the scene followed by two
  bands, every band the scene had is still selected under its name with the same pixels,
  and the capture timestamp, the cloud cover and the footprint are those of the scene.
\<close>

theorem derivation_appends_only:
  assumes "select1 ''SR_B5'' img = Inr NIR" and "select1 ''SR_B4'' img = Inr RED"
    and "select1 ''ST_B10'' img = Inr T"
  shows "\<exists>a out. addNdvi img = Inr a \<and> addLST a = Inr out \<and>
         (\<exists>ndvi lst. bands out = bands img @ [ndvi, lst]) \<and>
         (\<forall>n b. select1 n img = Inr b \<longrightarrow> select1 n out = Inr b) \<and>
         time_start out = time_start img \<and> CLOUD_COVER out = CLOUD_COVER img \<and>
         footprint out = footprint img"
proof -
  let ?nb = "(''NDVI'', multiply (ndvi_expression NIR RED) 100)"
  let ?a = "addBands img ?nb"
  let ?lb = "(''LST'', subtract (add (multiply T 0.00341802) 149.0) 273)"
  let ?out = "addBands ?a ?lb"
  have a: "addNdvi img = Inr ?a"
    using assms(1,2) by (simp add: addNdvi_def)
  have "select1 ''ST_B10'' ?a = Inr T"
    using assms(3) by (rule select1_addBands_old)
  then have out: "addLST ?a = Inr ?out"
    by (simp add: addLST_def)
  have "bands ?out = bands img @ [(fresh_name (fst ?nb) (bandNames img), snd ?nb),
                                  (fresh_name (fst ?lb) (bandNames ?a), snd ?lb)]"
    by (simp add: bands_addBands)
  then have 1: "\<exists>ndvi lst. bands ?out = bands img @ [ndvi, lst]" by blast
  have 2: "\<forall>n b. select1 n img = Inr b \<longrightarrow> select1 n ?out = Inr b"
    by (simp add: select1_addBands_old)
  have 3: "time_start ?out = time_start img" and 4: "CLOUD_COVER ?out = CLOUD_COVER img"
    and 5: "footprint ?out = footprint img"
    by (simp_all add: addBands_metadata)
  from a out 1 2 3 4 5 show ?thesis
    by (intro exI [of _ ?a] exI [of _ ?out] conjI)
qed

lemma addNdvi_example_scene: "addNdvi example_scene = Inr example_with_ndvi"
  by (simp add: select1_def example_scene_def example_with_ndvi_def addNdvi_def addBands_def
      bandNames_def fresh_name_def ndvi_expression_def multiply_def px2_def ee_divide_def)

lemma addLST_example_with_ndvi: "addLST example_with_ndvi = Inr example_derived"
  by (simp add: select1_def example_scene_def example_with_ndvi_def example_derived_def
      addLST_def addBands_def bandNames_def fresh_name_def multiply_def add_def subtract_def)

theorem derivation_appends_only_witness:
  "addNdvi example_scene = Inr example_with_ndvi \<and>
   addLST example_with_ndvi = Inr example_derived \<and>
   (\<exists>ndvi lst. bands example_derived = bands example_scene @ [ndvi, lst]) \<and>
   select1 ''ST_B10'' example_derived = Inr [Some 30000, None, Some 0, Some 100] \<and>
   time_start example_derived = 1400000000000 \<and> CLOUD_COVER example_derived = 3 \<and>
   footprint example_derived = [0, 1, 2, 3]"
proof -
  have n: "select1 ''SR_B5'' example_scene = Inr [Some 0, Some 5, Some 7, Some 3]"
    and r: "select1 ''SR_B4'' example_scene = Inr [Some 0, Some 5, None, Some 1]"
    and t: "select1 ''ST_B10'' example_scene = Inr [Some 30000, None, Some 0, Some 100]"
    by (simp_all add: select1_def example_scene_def)
  from derivation_appends_only [OF n r t] obtain a out where
    a: "addNdvi example_scene = Inr a" and out: "addLST a = Inr out" and
    1: "\<exists>ndvi lst. bands out = bands example_scene @ [ndvi, lst]" and
    2: "\<forall>n b. select1 n example_scene = Inr b \<longrightarrow> select1 n out = Inr b" and
    3: "time_start out = time_start example_scene" and
    4: "CLOUD_COVER out = CLOUD_COVER example_scene" and
    5: "footprint out = footprint example_scene"
    by - (erule exE, erule exE, elim conjE)
  from a have a': "a = example_with_ndvi" by (simp add: addNdvi_example_scene)
  with out have out': "out = example_derived" by (simp add: addLST_example_with_ndvi)
  from 2 t have 6: "select1 ''ST_B10'' out = Inr [Some 30000, None, Some 0, Some 100]"
    by blast
  from 3 4 5 have 7: "time_start out = 1400000000000" and 8: "CLOUD_COVER out = 3"
    and 9: "footprint out = [0, 1, 2, 3]"
    by (simp_all add: example_scene_def)
  from addNdvi_example_scene addLST_example_with_ndvi 1 6 7 8 9 show ?thesis
    unfolding out' by (intro conjI)
qed

section \<open>The two derivations commute\<close>

lemma ndvi_then_lst_eq:
  "ndvi_then_lst img =
     (case select1 ''SR_B5'' img of Inl e \<Rightarrow> Inl e | Inr NIR \<Rightarrow>
      (case select1 ''SR_B4'' img of Inl e \<Rightarrow> Inl e | Inr RED \<Rightarrow>
       (case select1 ''ST_B10'' img of Inl e \<Rightarrow> Inl e | Inr b \<Rightarrow>
         Inr (img\<lparr>bands := bands img @
               [(fresh_name ''NDVI'' (bandNames img), multiply (ndvi_expression NIR RED) 100),
                (fresh_name ''LST'' (bandNames img),
                 subtract (add (multiply b 0.00341802) 149.0) 273)]\<rparr>))))"
proof -
  have s: "select1 ''ST_B10'' (addBands img (''NDVI'', x)) = select1 ''ST_B10'' img" for x
    by (rule select1_addBands_other) simp_all
  have f: "fresh_name ''LST'' (bandNames img @ [fresh_name ''NDVI'' (bandNames img)])
             = fresh_name ''LST'' (bandNames img)"
    by (rule fresh_name_append_other) (simp_all add: hd_fresh_name)
  show ?thesis
    unfolding ndvi_then_lst_def addNdvi_def addLST_def
    by (simp add: s f addBands_addBands split: sum.splits)
qed

lemma lst_then_ndvi_eq:
  "lst_then_ndvi img =
     (case select1 ''ST_B10'' img of Inl e \<Rightarrow> Inl e | Inr b \<Rightarrow>
      (case select1 ''SR_B5'' img of Inl e \<Rightarrow> Inl e | Inr NIR \<Rightarrow>
       (case select1 ''SR_B4'' img of Inl e \<Rightarrow> Inl e | Inr RED \<Rightarrow>
         Inr (img\<lparr>bands := bands img @
               [(fresh_name ''LST'' (bandNames img),
                 subtract (add (multiply b 0.00341802) 149.0) 273),
                (fresh_name ''NDVI'' (bandNames img), multiply (ndvi_expression NIR RED) 100)]\<rparr>))))"
proof -
  have s: "select1 ''SR_B5'' (addBands img (''LST'', x)) = select1 ''SR_B5'' img"
     "select1 ''SR_B4'' (addBands img (''LST'', x)) = select1 ''SR_B4'' img" for x
    by (rule select1_addBands_other; simp)+
  have f: "fresh_name ''NDVI'' (bandNames img @ [fresh_name ''LST'' (bandNames img)])
             = fresh_name ''NDVI'' (bandNames img)"
    by (rule fresh_name_append_other) (simp_all add: hd_fresh_name)
  show ?thesis
    unfolding lst_then_ndvi_def addNdvi_def addLST_def
    by (simp add: s f addBands_addBands split: sum.splits)
qed

text \<open>
  C10. The two orders of derivation fail on the same images (those lacking one of
  \<^verbatim>\<open>SR_B5\<close>, \<^verbatim>\<open>SR_B4\<close>, \<^verbatim>\<open>ST_B10\<close>), and where they succeed every band name selects the
  same pixels in both results: the NDVI band reads only \<^verbatim>\<open>SR_B5\<close> and \<^verbatim>\<open>SR_B4\<close>, the LST
  band only \<^verbatim>\<open>ST_B10\<close>. The two results differ only in the order of the two appended
  bands; timestamp, cloud cover and footprint agree.
\<close>

theorem derivations_commute:
  "(isl (ndvi_then_lst img) \<longleftrightarrow> isl (lst_then_ndvi img)) \<and>
   (isl (ndvi_then_lst img) \<longleftrightarrow>
      isl (select1 ''SR_B5'' img) \<or> isl (select1 ''SR_B4'' img) \<or> isl (select1 ''ST_B10'' img)) \<and>
   (\<forall>x y. ndvi_then_lst img = Inr x \<and> lst_then_ndvi img = Inr y \<longrightarrow>
      (\<forall>n. select1 n x = select1 n y) \<and>
      (\<exists>ndvi lst. bands x = bands img @ [ndvi, lst] \<and> bands y = bands img @ [lst, ndvi]) \<and>
      time_start x = time_start y \<and> CLOUD_COVER x = CLOUD_COVER y \<and> footprint x = footprint y)"
proof -
  have ne: "fresh_name ''NDVI'' ns \<noteq> fresh_name ''LST'' ns" for ns
    using hd_fresh_name [of "''NDVI''" ns] hd_fresh_name [of "''LST''" ns] by auto
  have 1: "isl (ndvi_then_lst img) \<longleftrightarrow> isl (lst_then_ndvi img)"
    unfolding ndvi_then_lst_eq lst_then_ndvi_eq by (simp split: sum.splits)
  have 3: "isl (ndvi_then_lst img) \<longleftrightarrow>
      isl (select1 ''SR_B5'' img) \<or> isl (select1 ''SR_B4'' img) \<or> isl (select1 ''ST_B10'' img)"
    unfolding ndvi_then_lst_eq by (simp split: sum.splits)
  have 2: "(\<forall>n. select1 n x = select1 n y) \<and>
      (\<exists>ndvi lst. bands x = bands img @ [ndvi, lst] \<and> bands y = bands img @ [lst, ndvi]) \<and>
      time_start x = time_start y \<and> CLOUD_COVER x = CLOUD_COVER y \<and> footprint x = footprint y"
    if "ndvi_then_lst img = Inr x" and "lst_then_ndvi img = Inr y" for x y
  proof -
    from that obtain p q where
      x: "x = img\<lparr>bands := bands img @ [(fresh_name ''NDVI'' (bandNames img), p),
                                         (fresh_name ''LST'' (bandNames img), q)]\<rparr>" and
      y: "y = img\<lparr>bands := bands img @ [(fresh_name ''LST'' (bandNames img), q),
                                         (fresh_name ''NDVI'' (bandNames img), p)]\<rparr>"
      unfolding ndvi_then_lst_eq lst_then_ndvi_eq by (auto split: sum.splits)
    have "select1 n x = select1 n y" for n
      unfolding x y by (rule select1_swap [OF ne])
    moreover have "\<exists>ndvi lst. bands x = bands img @ [ndvi, lst] \<and> bands y = bands img @ [lst, ndvi]"
      by (simp add: x y)
    moreover have "time_start x = time_start y \<and> CLOUD_COVER x = CLOUD_COVER y \<and>
        footprint x = footprint y"
      by (simp add: x y)
    ultimately show ?thesis by blast
  qed
  from 2 have "\<forall>x y. ndvi_then_lst img = Inr x \<and> lst_then_ndvi img = Inr y \<longrightarrow>
      (\<forall>n. select1 n x = select1 n y) \<and>
      (\<exists>ndvi lst. bands x = bands img @ [ndvi, lst] \<and> bands y = bands img @ [lst, ndvi]) \<and>
      time_start x = time_start y \<and> CLOUD_COVER x = CLOUD_COVER y \<and> footprint x = footprint y"
    by (intro allI impI) (elim conjE)
  with 1 3 show ?thesis by (intro conjI)
qed

theorem derivations_commute_witness:
  "ndvi_then_lst example_scene = Inr example_derived \<and>
   (case lst_then_ndvi example_scene of Inl e \<Rightarrow> Inl e | Inr y \<Rightarrow> select1 ''NDVI'' y)
     = Inr [None, Some 0, None, Some 50] \<and>
   (case lst_then_ndvi example_scene of Inl e \<Rightarrow> Inl e | Inr y \<Rightarrow> select1 ''LST'' y)
     = Inr [Some (- 21.4594), None, Some (- 124), Some (- 123.658198)]"
proof -
  note t = derivations_commute [of example_scene]
  have a: "ndvi_then_lst example_scene = Inr example_derived"
    by (simp add: ndvi_then_lst_def addNdvi_example_scene addLST_example_with_ndvi)
  from t have "isl (ndvi_then_lst example_scene) \<longleftrightarrow> isl (lst_then_ndvi example_scene)"
    by (rule conjunct1)
  moreover have "\<not> isl (ndvi_then_lst example_scene)"
    by (simp add: a)
  ultimately have "\<not> isl (lst_then_ndvi example_scene)"
    by simp
  then obtain y where y: "lst_then_ndvi example_scene = Inr y"
    by (cases "lst_then_ndvi example_scene") simp_all
  from t have "\<forall>x y. ndvi_then_lst example_scene = Inr x \<and> lst_then_ndvi example_scene = Inr y \<longrightarrow>
      (\<forall>n. select1 n x = select1 n y) \<and>
      (\<exists>ndvi lst. bands x = bands example_scene @ [ndvi, lst] \<and>
         bands y = bands example_scene @ [lst, ndvi]) \<and>
      time_start x = time_start y \<and> CLOUD_COVER x = CLOUD_COVER y \<and> footprint x = footprint y"
    by (elim conjE)
  from this [rule_format, OF conjI [OF a y]] have s: "select1 n example_derived = select1 n y" for n
    by simp
  have "select1 ''NDVI'' example_derived = Inr [None, Some 0, None, Some 50]"
    and "select1 ''LST'' example_derived = Inr [Some (- 21.4594), None, Some (- 124), Some (- 123.658198)]"
    by (simp_all add: select1_def example_derived_def example_with_ndvi_def example_scene_def)
  with s [of "''NDVI''"] s [of "''LST''"] a y show ?thesis
    by simp
qed

section \<open>Mapping over a collection\<close>

lemma map_results_InrD:
  "map_results f xs = Inr ys \<Longrightarrow> list_all2 (\<lambda>x y. f x = Inr y) xs ys"
  by (induction xs arbitrary: ys) (auto split: sum.splits)

lemma map_results_InrI:
  "list_all2 (\<lambda>x y. f x = Inr y) xs ys \<Longrightarrow> map_results f xs = Inr ys"
  by (induction rule: list_all2_induct) auto

lemma map_results_Inr_iff:
  "map_results f xs = Inr ys \<longleftrightarrow> list_all2 (\<lambda>x y. f x = Inr y) xs ys"
  using map_results_InrD map_results_InrI by blast


lemma map_results_compose:
  "(case map_results f xs of Inl e \<Rightarrow> Inl e | Inr c \<Rightarrow> map_results g c) = Inr zs \<longleftrightarrow>
   list_all2 (\<lambda>x z. \<exists>y. f x = Inr y \<and> g y = Inr z) xs zs"
proof -
  have "(case map_results f xs of Inl e \<Rightarrow> Inl e | Inr c \<Rightarrow> map_results g c) = Inr zs \<longleftrightarrow>
        (\<exists>c. map_results f xs = Inr c \<and> map_results g c = Inr zs)"
    by (cases "map_results f xs") simp_all
  also have "\<dots> \<longleftrightarrow> (list_all2 (\<lambda>x y. f x = Inr y) OO list_all2 (\<lambda>y z. g y = Inr z)) xs zs"
    unfolding map_results_Inr_iff by (simp add: OO_def)
  also have "\<dots> \<longleftrightarrow> list_all2 ((\<lambda>x y. f x = Inr y) OO (\<lambda>y z. g y = Inr z)) xs zs"
    by (simp only: list.rel_compp)
  also have "((\<lambda>x y. f x = Inr y) OO (\<lambda>y z. g y = Inr z)) = (\<lambda>x z. \<exists>y. f x = Inr y \<and> g y = Inr z)"
    by (simp add: OO_def)
  finally show ?thesis .
qed

lemma list_all2_map_eq:
  "list_all2 R xs ys \<Longrightarrow> (\<And>x y. R x y \<Longrightarrow> f x = g y) \<Longrightarrow> map f xs = map g ys"
  by (induction rule: list_all2_induct) auto

lemma select1_addBands_present: "\<exists>b. select1 (fst nb) (addBands img nb) = Inr b"
proof (cases "fst nb \<in> set (bandNames img)")
  case True
  then have "map_of (bands img) (fst nb) \<noteq> None"
    by (simp add: bandNames_def map_of_eq_None_iff)
  then obtain b where "map_of (bands img) (fst nb) = Some b"
    by auto
  then have "select1 (fst nb) img = Inr b" by (simp add: select1_def)
  then have "select1 (fst nb) (addBands img nb) = Inr b" by (rule select1_addBands_old)
  then show ?thesis ..
next
  case False
  then have "select1 (fst nb) (addBands img nb) = Inr (snd nb)" by (rule select1_addBands_new)
  then show ?thesis ..
qed

lemma ndvi_then_lst_bands:
  assumes "addNdvi s = Inr x" and "addLST x = Inr img"
  shows "(\<exists>a. select1 ''NDVI'' img = Inr a) \<and> (\<exists>b. select1 ''LST'' img = Inr b) \<and>
         time_start img = time_start s"
proof -
  from addNdvi_InrD [OF assms(1)] obtain v where x: "x = addBands s (''NDVI'', v)" by blast
  from addLST_InrD [OF assms(2)] obtain w where i: "img = addBands x (''LST'', w)" by blast
  from select1_addBands_present [of "(''NDVI'', v)" s] obtain a where "select1 ''NDVI'' x = Inr a"
    unfolding x by auto
  then have "select1 ''NDVI'' img = Inr a"
    unfolding i by (rule select1_addBands_old)
  then have 1: "\<exists>a. select1 ''NDVI'' img = Inr a" ..
  from select1_addBands_present [of "(''LST'', w)" x] have 2: "\<exists>b. select1 ''LST'' img = Inr b"
    by (simp add: i)
  have 3: "time_start img = time_start s"
    by (simp add: i x addBands_metadata)
  from 1 2 3 show ?thesis by (intro conjI)
qed

lemma landsatCollection_Inr_iff:
  "landsatCollection archive g = Inr coll \<longleftrightarrow>
   list_all2 (\<lambda>s img. \<exists>x. addNdvi s = Inr x \<and> addLST x = Inr img)
     (filter_lt CLOUD_COVER 15 (filterDate date_2014_01_01 date_2023_12_31 (filterBounds g archive)))
     coll"
  unfolding landsatCollection_def by (rule map_results_compose)

lemma landsatCollection_bands:
  assumes "landsatCollection archive g = Inr coll" and "img \<in> set coll"
  shows "(\<exists>a. select1 ''NDVI'' img = Inr a) \<and> (\<exists>b. select1 ''LST'' img = Inr b)"
proof -
  from assms(1) have "list_all2 (\<lambda>s img. \<exists>x. addNdvi s = Inr x \<and> addLST x = Inr img)
     (filter_lt CLOUD_COVER 15 (filterDate date_2014_01_01 date_2023_12_31 (filterBounds g archive)))
     coll"
    by (simp only: landsatCollection_Inr_iff)
  with assms(2) obtain s x where "addNdvi s = Inr x" and "addLST x = Inr img"
    by (auto simp: list_all2_conv_all_nth in_set_conv_nth)
  from ndvi_then_lst_bands [OF this] show ?thesis by (elim conjE) (intro conjI)
qed

lemma landsatCollection_times:
  assumes "landsatCollection archive g = Inr coll"
  shows "map time_start coll = map time_start
     (filter_lt CLOUD_COVER 15 (filterDate date_2014_01_01 date_2023_12_31 (filterBounds g archive)))"
proof -
  from assms have "list_all2 (\<lambda>s img. \<exists>x. addNdvi s = Inr x \<and> addLST x = Inr img)
     (filter_lt CLOUD_COVER 15 (filterDate date_2014_01_01 date_2023_12_31 (filterBounds g archive)))
     coll"
    by (simp only: landsatCollection_Inr_iff)
  moreover have "time_start s = time_start img"
    if "\<exists>x. addNdvi s = Inr x \<and> addLST x = Inr img" for s img
  proof -
    from that obtain x where "addNdvi s = Inr x" and "addLST x = Inr img" by (elim exE conjE)
    from ndvi_then_lst_bands [OF this] show ?thesis by simp
  qed
  ultimately show ?thesis
    by (rule list_all2_map_eq [symmetric])
qed

lemma select_two:
  "select1 n img = Inr a \<Longrightarrow> select1 m img = Inr b \<Longrightarrow>
   select [n, m] img = Inr (img\<lparr>bands := [(n, a), (m, b)]\<rparr>)"
  by (auto simp: select_def select1_def split: option.splits)

lemma select_two_InrD:
  "select [n, m] img = Inr s \<Longrightarrow>
   \<exists>a b. select1 n img = Inr a \<and> select1 m img = Inr b \<and> s = img\<lparr>bands := [(n, a), (m, b)]\<rparr>"
  by (auto simp: select_def select1_def split: option.splits sum.splits)

lemma series_entry_Mean_two:
  "series_entry smp region Mean scale (img\<lparr>bands := [(n, a), (m, b)]\<rparr>) =
     Inr (time_start img, [(n, mean_reducer (smp scale region a)), (m, mean_reducer (smp scale region b))])"
  by (simp add: series_entry_def reduceRegion_def)

lemma series_entry_Pearson_two:
  "series_entry smp region PearsonsCorrelation scale (img\<lparr>bands := [(n, a), (m, b)]\<rparr>) =
     Inr (time_start img,
          [(''correlation'', pearsonsCorrelation (valid_pairs (smp scale region a) (smp scale region b)))])"
  by (simp add: series_entry_def reduceRegion_def)

lemma landsatCollection_example:
  "landsatCollection example_archive [0, 1, 2] = Inr example_collection"
proof -
  have f: "filter_lt CLOUD_COVER 15
      (filterDate date_2014_01_01 date_2023_12_31 (filterBounds [0, 1, 2] example_archive)) =
     [scene_ok\<lparr>time_start := 1388534400000\<rparr>, scene_ok]"
    by (simp add: filter_lt_def filterDate_def filterBounds_def example_archive_def scene_ok_def
        intersects_def date_2014_01_01_def date_2023_12_31_def)
  have n1: "addNdvi (scene_ok\<lparr>time_start := t\<rparr>) =
      Inr (scene_ok\<lparr>time_start := t, bands := bands scene_ok @
        [(''NDVI'', [Some 50, Some 0, Some 50, Some 0])]\<rparr>)" for t
    by (simp add: select1_def scene_ok_def addNdvi_def addBands_def
      bandNames_def fresh_name_def ndvi_expression_def multiply_def px2_def ee_divide_def)
  have n2: "addNdvi scene_ok =
      Inr (scene_ok\<lparr>bands := bands scene_ok @ [(''NDVI'', [Some 50, Some 0, Some 50, Some 0])]\<rparr>)"
    by (simp add: select1_def scene_ok_def addNdvi_def addBands_def
      bandNames_def fresh_name_def ndvi_expression_def multiply_def px2_def ee_divide_def)
  have l1: "addLST (scene_ok\<lparr>time_start := t, bands := bands scene_ok @
        [(''NDVI'', [Some 50, Some 0, Some 50, Some 0])]\<rparr>) = Inr (scene_ok_derived\<lparr>time_start := t\<rparr>)" for t
    by (simp add: select1_def scene_ok_def scene_ok_derived_def addLST_def addBands_def
      bandNames_def fresh_name_def multiply_def add_def subtract_def)
  have l2: "addLST (scene_ok\<lparr>bands := bands scene_ok @
        [(''NDVI'', [Some 50, Some 0, Some 50, Some 0])]\<rparr>) = Inr scene_ok_derived"
    by (simp add: select1_def scene_ok_def scene_ok_derived_def addLST_def addBands_def
      bandNames_def fresh_name_def multiply_def add_def subtract_def)
  show ?thesis
    unfolding landsatCollection_def f by (simp add: n1 n2 l1 l2 example_collection_def)
qed

lemma list_all2_total:
  "(\<forall>x \<in> set xs. \<exists>y. R x y) \<Longrightarrow> \<exists>ys. list_all2 R xs ys"
proof (induction xs)
  case Nil
  then show ?case by simp
next
  case (Cons x xs)
  then obtain y ys where "R x y" and "list_all2 R xs ys" by auto
  then have "list_all2 R (x # xs) (y # ys)" by simp
  then show ?case by blast
qed

lemma ndvi_then_lst_metadata:
  assumes "addNdvi s = Inr x" and "addLST x = Inr d"
  shows "ndvi_then_lst s = Inr d \<and> time_start d = time_start s \<and>
         CLOUD_COVER d = CLOUD_COVER s \<and> footprint d = footprint s"
proof -
  from addNdvi_InrD [OF assms(1)] obtain v where x: "x = addBands s (''NDVI'', v)" by blast
  from addLST_InrD [OF assms(2)] obtain w where d: "d = addBands x (''LST'', w)" by blast
  from assms have "ndvi_then_lst s = Inr d" by (simp add: ndvi_then_lst_def)
  then show ?thesis by (simp add: d x addBands_metadata)
qed

lemma ndvi_then_lst_Inr_iff:
  "(\<exists>d. ndvi_then_lst s = Inr d) \<longleftrightarrow>
   \<not> isl (select1 ''SR_B5'' s) \<and> \<not> isl (select1 ''SR_B4'' s) \<and> \<not> isl (select1 ''ST_B10'' s)"
  unfolding ndvi_then_lst_eq by (simp split: sum.splits)

lemma filter_chain:
  "filter_lt CLOUD_COVER th (filterDate start finish (filterBounds g coll)) =
     filter (\<lambda>s. intersects (footprint s) g \<and> start \<le> time_start s \<and> time_start s < finish \<and>
                  CLOUD_COVER s < th) coll"
  by (simp add: filter_lt_def filterDate_def filterBounds_def conj_commute conj_left_commute)

section \<open>The scene filter\<close>

text \<open>
  C7. For every archive and region, the collection the script derives corresponds scene by
  scene, in the order of the archive, to exactly the archive scenes whose footprint
  intersects the region, whose timestamp lies in the script's interval (2014-01-01
  inclusive, 2023-12-31 exclusive) and whose cloud cover is strictly below 15: each output
  scene is the derivation of the kept scene at its position and carries its timestamp,
  cloud cover and footprint. An ascending archive gives an ascending collection. The
  script fails only on a kept scene that lacks a raw band, never on a scene the filter
  drops, and when the filter keeps nothing the result is the empty collection, not an
  error. For every other interval and threshold the chain of the three filters keeps the
  scenes that meet the three conditions with those bounds.
\<close>

theorem scene_filter_exact:
  "(let kept = filter (\<lambda>s. intersects (footprint s) atlGeom \<and> date_2014_01_01 \<le> time_start s \<and>
                        time_start s < date_2023_12_31 \<and> CLOUD_COVER s < 15) archive
    in (\<forall>coll. landsatCollection archive atlGeom = Inr coll \<longrightarrow>
          list_all2 (\<lambda>s d. ndvi_then_lst s = Inr d \<and> time_start d = time_start s \<and>
                       CLOUD_COVER d = CLOUD_COVER s \<and> footprint d = footprint s) kept coll \<and>
          (\<forall>d \<in> set coll. intersects (footprint d) atlGeom \<and> date_2014_01_01 \<le> time_start d \<and>
                       time_start d < date_2023_12_31 \<and> CLOUD_COVER d < 15) \<and>
          (sorted (map time_start archive) \<longrightarrow> sorted (map time_start coll))) \<and>
       ((\<exists>coll. landsatCollection archive atlGeom = Inr coll) \<longleftrightarrow>
          (\<forall>s \<in> set kept. \<not> isl (select1 ''SR_B5'' s) \<and> \<not> isl (select1 ''SR_B4'' s) \<and>
                           \<not> isl (select1 ''ST_B10'' s))) \<and>
       (kept = [] \<longrightarrow> landsatCollection archive atlGeom = Inr [])) \<and>
   (\<forall>start finish th.
      filter_lt CLOUD_COVER th (filterDate start finish (filterBounds atlGeom archive)) =
        filter (\<lambda>s. intersects (footprint s) atlGeom \<and> start \<le> time_start s \<and>
                     time_start s < finish \<and> CLOUD_COVER s < th) archive)"
proof -
  let ?P = "\<lambda>s. intersects (footprint s) atlGeom \<and> date_2014_01_01 \<le> time_start s \<and>
                 time_start s < date_2023_12_31 \<and> CLOUD_COVER s < 15"
  let ?kept = "filter ?P archive"
  let ?R = "\<lambda>s d. \<exists>x. addNdvi s = Inr x \<and> addLST x = Inr d"
  let ?Q = "\<lambda>s d. ndvi_then_lst s = Inr d \<and> time_start d = time_start s \<and>
                  CLOUD_COVER d = CLOUD_COVER s \<and> footprint d = footprint s"
  have iff: "landsatCollection archive atlGeom = Inr coll \<longleftrightarrow> list_all2 ?R ?kept coll" for coll
    unfolding landsatCollection_Inr_iff filter_chain ..
  have RQ: "?Q s d" if "?R s d" for s d
  proof -
    from that obtain x where "addNdvi s = Inr x" and "addLST x = Inr d" by (elim exE conjE)
    then show ?thesis by (rule ndvi_then_lst_metadata)
  qed
  have QR: "?R s d" if "ndvi_then_lst s = Inr d" for s d
    using that by (cases "addNdvi s") (simp_all add: ndvi_then_lst_def)
  have 1: "list_all2 ?Q ?kept coll \<and> (\<forall>d \<in> set coll. ?P d) \<and>
           (sorted (map time_start archive) \<longrightarrow> sorted (map time_start coll))"
    if c: "landsatCollection archive atlGeom = Inr coll" for coll
  proof -
    from c have r: "list_all2 ?R ?kept coll" by (simp only: iff)
    then have q: "list_all2 ?Q ?kept coll"
      by (rule list_all2_mono) (rule RQ)
    have p: "?P d" if "d \<in> set coll" for d
    proof -
      from that have "\<exists>i < length coll. coll ! i = d" by (simp only: in_set_conv_nth)
      then obtain i where i: "i < length coll" and d: "coll ! i = d"
        by (elim exE conjE)
      from list_all2_nthD2 [OF q i] have m: "?Q (?kept ! i) d" unfolding d .
      from q have len: "length ?kept = length coll" by (rule list_all2_lengthD)
      from i len have "i < length ?kept" by (simp only:)
      then have "?kept ! i \<in> set ?kept" by (rule nth_mem)
      then have "?P (?kept ! i)" by simp
      with m show ?thesis by simp
    qed
    have t: "map time_start coll = map time_start ?kept"
      by (rule list_all2_map_eq [symmetric, OF q]) simp
    have "sorted (map time_start coll)" if "sorted (map time_start archive)"
      unfolding t using that by (simp add: sorted_filter)
    then have o: "sorted (map time_start archive) \<longrightarrow> sorted (map time_start coll)" ..
    from p have "\<forall>d \<in> set coll. ?P d" ..
    with q o show ?thesis by (intro conjI)
  qed
  have 2: "(\<exists>coll. landsatCollection archive atlGeom = Inr coll) \<longleftrightarrow>
           (\<forall>s \<in> set ?kept. \<not> isl (select1 ''SR_B5'' s) \<and> \<not> isl (select1 ''SR_B4'' s) \<and>
                           \<not> isl (select1 ''ST_B10'' s))"
  proof
    assume "\<exists>coll. landsatCollection archive atlGeom = Inr coll"
    then obtain coll where "list_all2 ?R ?kept coll" unfolding iff ..
    then have q: "list_all2 ?Q ?kept coll"
      by (rule list_all2_mono) (rule RQ)
    show "\<forall>s \<in> set ?kept. \<not> isl (select1 ''SR_B5'' s) \<and> \<not> isl (select1 ''SR_B4'' s) \<and>
                           \<not> isl (select1 ''ST_B10'' s)"
    proof
      fix s
      assume "s \<in> set ?kept"
      then have "\<exists>i < length ?kept. ?kept ! i = s" by (simp only: in_set_conv_nth)
      then obtain i where i: "i < length ?kept" and s: "?kept ! i = s"
        by (elim exE conjE)
      from list_all2_nthD [OF q i] have "ndvi_then_lst s = Inr (coll ! i)"
        unfolding s by (elim conjE)
      then have "\<exists>d. ndvi_then_lst s = Inr d" ..
      then show "\<not> isl (select1 ''SR_B5'' s) \<and> \<not> isl (select1 ''SR_B4'' s) \<and>
                 \<not> isl (select1 ''ST_B10'' s)"
        unfolding ndvi_then_lst_Inr_iff .
    qed
  next
    assume a: "\<forall>s \<in> set ?kept. \<not> isl (select1 ''SR_B5'' s) \<and> \<not> isl (select1 ''SR_B4'' s) \<and>
                           \<not> isl (select1 ''ST_B10'' s)"
    have "\<forall>s \<in> set ?kept. \<exists>d. ?R s d"
    proof
      fix s
      assume "s \<in> set ?kept"
      with a have "\<not> isl (select1 ''SR_B5'' s) \<and> \<not> isl (select1 ''SR_B4'' s) \<and>
                 \<not> isl (select1 ''ST_B10'' s)" ..
      then have "\<exists>d. ndvi_then_lst s = Inr d" unfolding ndvi_then_lst_Inr_iff .
      then obtain d where "ndvi_then_lst s = Inr d" ..
      then have "?R s d" by (rule QR)
      then show "\<exists>d. ?R s d" ..
    qed
    from list_all2_total [OF this] obtain coll where "list_all2 ?R ?kept coll" ..
    then have "landsatCollection archive atlGeom = Inr coll" by (simp only: iff)
    then show "\<exists>coll. landsatCollection archive atlGeom = Inr coll" ..
  qed
  have 3: "landsatCollection archive atlGeom = Inr []" if "?kept = []"
    unfolding iff that by simp
  have 4: "\<forall>start finish th.
      filter_lt CLOUD_COVER th (filterDate start finish (filterBounds atlGeom archive)) =
        filter (\<lambda>s. intersects (footprint s) atlGeom \<and> start \<le> time_start s \<and>
                     time_start s < finish \<and> CLOUD_COVER s < th) archive"
    by (intro allI) (rule filter_chain)
  from 1 have k1: "\<forall>coll. landsatCollection archive atlGeom = Inr coll \<longrightarrow>
      list_all2 ?Q ?kept coll \<and> (\<forall>d \<in> set coll. ?P d) \<and>
      (sorted (map time_start archive) \<longrightarrow> sorted (map time_start coll))"
    by (intro allI impI)
  from 3 have k3: "?kept = [] \<longrightarrow> landsatCollection archive atlGeom = Inr []"
    by (intro impI)
  from k1 2 k3 4 show ?thesis
    unfolding Let_def by (intro conjI)
qed

theorem scene_filter_exact_witness:
  "sorted (map time_start example_archive) \<and>
   landsatCollection example_archive [0, 1, 2] = Inr example_collection \<and>
   list_all2 (\<lambda>s d. ndvi_then_lst s = Inr d \<and> time_start d = time_start s \<and>
                CLOUD_COVER d = CLOUD_COVER s \<and> footprint d = footprint s)
     [scene_ok\<lparr>time_start := 1388534400000\<rparr>, scene_ok] example_collection \<and>
   sorted (map time_start example_collection) \<and>
   landsatCollection example_archive [9] = Inr []"
proof -
  have s: "sorted (map time_start example_archive)"
    by (simp add: example_archive_def scene_ok_def)
  have e: "filter (\<lambda>s. intersects (footprint s) [0, 1, 2] \<and> date_2014_01_01 \<le> time_start s \<and>
               time_start s < date_2023_12_31 \<and> CLOUD_COVER s < 15) example_archive
           = [scene_ok\<lparr>time_start := 1388534400000\<rparr>, scene_ok]"
    by (simp add: example_archive_def scene_ok_def intersects_def date_2014_01_01_def
        date_2023_12_31_def)
  have n: "filter (\<lambda>s. intersects (footprint s) [9] \<and> date_2014_01_01 \<le> time_start s \<and>
               time_start s < date_2023_12_31 \<and> CLOUD_COVER s < 15) example_archive = []"
    by (simp add: example_archive_def scene_ok_def intersects_def)
  note t = scene_filter_exact [of "[0, 1, 2]" example_archive, unfolded Let_def e]
  note u = scene_filter_exact [of "[9]" example_archive, unfolded Let_def n]
  from t have "\<forall>coll. landsatCollection example_archive [0, 1, 2] = Inr coll \<longrightarrow>
      list_all2 (\<lambda>s d. ndvi_then_lst s = Inr d \<and> time_start d = time_start s \<and>
                   CLOUD_COVER d = CLOUD_COVER s \<and> footprint d = footprint s)
        [scene_ok\<lparr>time_start := 1388534400000\<rparr>, scene_ok] coll \<and>
      (\<forall>d \<in> set coll. intersects (footprint d) [0, 1, 2] \<and> date_2014_01_01 \<le> time_start d \<and>
                   time_start d < date_2023_12_31 \<and> CLOUD_COVER d < 15) \<and>
      (sorted (map time_start example_archive) \<longrightarrow> sorted (map time_start coll))"
    by (elim conjE)
  note c = this [rule_format, OF landsatCollection_example]
  from c have 1: "list_all2 (\<lambda>s d. ndvi_then_lst s = Inr d \<and> time_start d = time_start s \<and>
                   CLOUD_COVER d = CLOUD_COVER s \<and> footprint d = footprint s)
        [scene_ok\<lparr>time_start := 1388534400000\<rparr>, scene_ok] example_collection"
    by (elim conjE)
  from c have 2: "sorted (map time_start example_archive) \<longrightarrow>
      sorted (map time_start example_collection)"
    by (elim conjE)
  from 2 s have 3: "sorted (map time_start example_collection)" by (rule mp)
  from u have "[] = ([] :: image list) \<longrightarrow> landsatCollection example_archive [9] = Inr []"
    by (elim conjE)
  then have 4: "landsatCollection example_archive [9] = Inr []" by simp
  from s landsatCollection_example 1 3 4 show ?thesis by (intro conjI)
qed

section \<open>Entries of the two charts\<close>

lemma atlTrnd_Inr_iff:
  "atlTrnd smp coll region = Inr tr \<longleftrightarrow>
   list_all2 (\<lambda>img e. \<exists>a b. select1 ''NDVI'' img = Inr a \<and> select1 ''LST'' img = Inr b \<and>
      e = (time_start img, [(''NDVI'', mean_reducer (smp 500 region a)),
                            (''LST'', mean_reducer (smp 500 region b))])) coll tr"
proof -
  have "(\<lambda>img e. \<exists>s. select [''NDVI'', ''LST''] img = Inr s \<and> series_entry smp region Mean 500 s = Inr e)
      = (\<lambda>img e. \<exists>a b. select1 ''NDVI'' img = Inr a \<and> select1 ''LST'' img = Inr b \<and>
      e = (time_start img, [(''NDVI'', mean_reducer (smp 500 region a)),
                            (''LST'', mean_reducer (smp 500 region b))]))"
    by (intro ext iffI; (auto dest!: select_two_InrD simp: series_entry_Mean_two select_two)[1])
  then show ?thesis
    unfolding atlTrnd_def select_collection_def image_series_def map_results_compose by simp
qed

lemma correlChart_Inr_iff:
  "correlChart smp coll region = Inr co \<longleftrightarrow>
   list_all2 (\<lambda>img e. \<exists>a b. select1 ''LST'' img = Inr a \<and> select1 ''NDVI'' img = Inr b \<and>
      e = (time_start img, [(''correlation'',
             pearsonsCorrelation (valid_pairs (smp 30 region a) (smp 30 region b)))])) coll co"
proof -
  have "(\<lambda>img e. \<exists>s. select [''LST'', ''NDVI''] img = Inr s \<and>
            series_entry smp region PearsonsCorrelation 30 s = Inr e)
      = (\<lambda>img e. \<exists>a b. select1 ''LST'' img = Inr a \<and> select1 ''NDVI'' img = Inr b \<and>
      e = (time_start img, [(''correlation'',
             pearsonsCorrelation (valid_pairs (smp 30 region a) (smp 30 region b)))]))"
    by (intro ext iffI; (auto dest!: select_two_InrD simp: series_entry_Pearson_two select_two)[1])
  then show ?thesis
    unfolding correlChart_def select_collection_def image_series_def map_results_compose by simp
qed

section \<open>Pearson's correlation\<close>

lemma mean_of_const:
  assumes "xs \<noteq> []" and "\<forall>x \<in> set xs. x = (c::real)"
  shows "mean_of xs = c"
proof -
  from assms(2) have "sum_list xs = real (length xs) * c"
    by (induction xs) (simp_all add: algebra_simps)
  with assms(1) show ?thesis by (simp add: mean_of_def)
qed

lemma sum_sq_const:
  assumes "\<forall>x \<in> set xs. x = (c::real)"
  shows "sum_list (map (\<lambda>x. (x - mean_of xs)\<^sup>2) xs) = 0"
proof (cases "xs = []")
  case True
  then show ?thesis by simp
next
  case False
  from False assms have m: "mean_of xs = c" by (rule mean_of_const)
  from assms have "sum_list (map (\<lambda>x. (x - c)\<^sup>2) xs) = 0"
    by (induction xs) simp_all
  then show ?thesis by (simp only: m)
qed

lemma pearson_degenerate:
  assumes "length ps < 2 \<or> (\<exists>c. \<forall>p \<in> set ps. fst p = c) \<or> (\<exists>c. \<forall>p \<in> set ps. snd p = c)"
  shows "pearsonsCorrelation ps = None"
proof -
  from assms consider "length ps < 2" | c where "\<forall>x \<in> set (map fst ps). x = c"
    | c where "\<forall>y \<in> set (map snd ps). y = c"
    by auto
  then show ?thesis
  proof cases
    case 1
    then show ?thesis by (simp add: pearsonsCorrelation_def Let_def)
  next
    case 2
    then have "sum_list (map (\<lambda>x. (x - mean_of (map fst ps))\<^sup>2) (map fst ps)) = 0"
      by (rule sum_sq_const)
    then show ?thesis by (simp add: pearsonsCorrelation_def Let_def)
  next
    case 3
    then have "sum_list (map (\<lambda>x. (x - mean_of (map snd ps))\<^sup>2) (map snd ps)) = 0"
      by (rule sum_sq_const)
    then show ?thesis by (simp add: pearsonsCorrelation_def Let_def)
  qed
qed

lemma sum_list_linear:
  "sum_list (map (\<lambda>p. a + b * f p) ps) = real (length ps) * a + b * sum_list (map f ps)"
  by (induction ps) (simp_all add: algebra_simps)

lemma mean_of_linear:
  assumes "ps \<noteq> []" and "\<forall>p \<in> set ps. snd p = a + b * fst p"
  shows "mean_of (map snd ps) = a + b * mean_of (map fst ps)"
proof -
  from assms(2) have "map snd ps = map (\<lambda>p. a + b * fst p) ps"
    by (intro map_cong) simp_all
  then have "sum_list (map snd ps) = real (length ps) * a + b * sum_list (map fst ps)"
    by (simp only: sum_list_linear)
  with assms(1) show ?thesis
    by (simp add: mean_of_def field_simps)
qed

lemma sum_sq_nonneg: "0 \<le> sum_list (map (\<lambda>x. (x - (m::real))\<^sup>2) xs)"
  by (induction xs) simp_all

lemma sum_sq_zeroD:
  "sum_list (map (\<lambda>x. (x - m)\<^sup>2) xs) = 0 \<Longrightarrow> \<forall>x \<in> set xs. x = (m::real)"
proof (induction xs)
  case Nil
  then show ?case by simp
next
  case (Cons x xs)
  have "0 \<le> (x - m)\<^sup>2" by simp
  with Cons.prems sum_sq_nonneg [of m xs]
  have "(x - m)\<^sup>2 = 0" and "sum_list (map (\<lambda>x. (x - m)\<^sup>2) xs) = 0"
    by (simp_all add: add_nonneg_eq_0_iff)
  with Cons.IH show ?case by simp
qed

lemma sum_sq_pos:
  assumes "sorted_wrt (<) xs" and "2 \<le> length xs"
  shows "0 < sum_list (map (\<lambda>x. (x - (m::real))\<^sup>2) xs)"
proof -
  have "sum_list (map (\<lambda>x. (x - m)\<^sup>2) xs) \<noteq> 0"
  proof
    assume "sum_list (map (\<lambda>x. (x - m)\<^sup>2) xs) = 0"
    then have all: "\<forall>x \<in> set xs. x = m" by (rule sum_sq_zeroD)
    from assms(2) have "0 < length xs" and "1 < length xs" by linarith+
    then have "xs ! 0 \<in> set xs" and "xs ! 1 \<in> set xs" by (simp_all only: nth_mem)
    with all have "xs ! 0 = m" and "xs ! 1 = m" by blast+
    then have "xs ! 0 = xs ! 1" by simp
    moreover from assms have "xs ! 0 < xs ! 1"
      by (auto simp: sorted_wrt_iff_nth_less)
    ultimately show False by simp
  qed
  with sum_sq_nonneg [of m xs] show ?thesis by simp
qed

lemma pearson_anticorrelated:
  assumes len: "2 \<le> length ps"
    and asc: "sorted_wrt (<) (map fst ps)"
    and lin: "\<forall>p \<in> set ps. snd p = a + b * fst p"
    and neg: "b < 0"
  shows "pearsonsCorrelation ps = Some (- 1)"
proof -
  define mx where "mx = mean_of (map fst ps)"
  define my where "my = mean_of (map snd ps)"
  define sxx where "sxx = sum_list (map (\<lambda>x. (x - mx)\<^sup>2) (map fst ps))"
  define syy where "syy = sum_list (map (\<lambda>y. (y - my)\<^sup>2) (map snd ps))"
  define sxy where "sxy = sum_list (map (\<lambda>p. (fst p - mx) * (snd p - my)) ps)"
  from len have ne: "ps \<noteq> []" by auto
  have my: "my = a + b * mx"
    unfolding my_def mx_def using ne lin by (rule mean_of_linear)
  have sxx_pos: "0 < sxx"
    unfolding sxx_def using asc len by (intro sum_sq_pos) simp_all
  have sxx': "sxx = sum_list (map (\<lambda>p. (fst p - mx)\<^sup>2) ps)"
    by (simp add: sxx_def o_def)
  have "map (\<lambda>p. (fst p - mx) * (snd p - my)) ps = map (\<lambda>p. b * (fst p - mx)\<^sup>2) ps"
    using lin by (intro map_cong) (simp_all add: my power2_eq_square algebra_simps)
  then have "sxy = sum_list (map (\<lambda>p. b * (fst p - mx)\<^sup>2) ps)"
    by (simp only: sxy_def)
  then have sxy: "sxy = b * sxx"
    by (simp only: sxx' sum_list_const_mult)
  have "map (\<lambda>p. (snd p - my)\<^sup>2) ps = map (\<lambda>p. b\<^sup>2 * (fst p - mx)\<^sup>2) ps"
    using lin by (intro map_cong) (simp_all add: my power2_eq_square algebra_simps)
  moreover have "syy = sum_list (map (\<lambda>p. (snd p - my)\<^sup>2) ps)"
    by (simp add: syy_def o_def)
  ultimately have "syy = sum_list (map (\<lambda>p. b\<^sup>2 * (fst p - mx)\<^sup>2) ps)"
    by (simp only:)
  then have syy: "syy = b\<^sup>2 * sxx"
    by (simp only: sxx' sum_list_const_mult)
  have "sxx * syy = (b * sxx)\<^sup>2"
    by (simp add: syy power2_eq_square)
  then have root: "sqrt (sxx * syy) = - (b * sxx)"
    using neg sxx_pos by (simp add: mult_neg_pos abs_of_neg)
  have syy_ne: "syy \<noteq> 0"
    using neg sxx_pos by (simp add: syy)
  have "pearsonsCorrelation ps =
      (if length ps < 2 \<or> sxx = 0 \<or> syy = 0 then None else Some (sxy / sqrt (sxx * syy)))"
    unfolding pearsonsCorrelation_def Let_def mx_def my_def sxx_def syy_def sxy_def ..
  also have "\<dots> = Some (sxy / sqrt (sxx * syy))"
    using len sxx_pos syy_ne by simp
  also have "sxy / sqrt (sxx * syy) = - 1"
    using neg sxx_pos by (simp add: root sxy)
  finally show ?thesis .
qed

section \<open>One entry per scene\<close>

text \<open>
  C6. For the collection the script derives and for every region, the trend chart (mean
  reducer, scale 500) and the correlation chart (Pearson reducer, scale 30) both succeed
  and give exactly one entry per scene, labelled with the scenes' timestamps in the order of
  the collection, so an ascending collection gives ascending series. A scene with no valid
  pixel inside the region is not dropped: its trend entry carries no-data for both bands,
  and a scene with no valid pixel pair carries a no-data correlation.
\<close>

theorem series_one_entry_per_scene:
  assumes "landsatCollection archive atlGeom = Inr coll"
  shows "\<exists>tr co. atlTrnd smp coll region = Inr tr \<and> correlChart smp coll region = Inr co \<and>
     length tr = length coll \<and> length co = length coll \<and>
     map fst tr = map time_start coll \<and> map fst co = map time_start coll \<and>
     (sorted (map time_start coll) \<longrightarrow> sorted (map fst tr) \<and> sorted (map fst co)) \<and>
     (\<forall>i ndvi lst. i < length coll \<and> select1 ''NDVI'' (coll ! i) = Inr ndvi \<and>
          select1 ''LST'' (coll ! i) = Inr lst \<and>
          valid (smp 500 region ndvi) = [] \<and> valid (smp 500 region lst) = [] \<longrightarrow>
          tr ! i = (time_start (coll ! i), [(''NDVI'', None), (''LST'', None)])) \<and>
     (\<forall>i ndvi lst. i < length coll \<and> select1 ''NDVI'' (coll ! i) = Inr ndvi \<and>
          select1 ''LST'' (coll ! i) = Inr lst \<and>
          valid_pairs (smp 30 region lst) (smp 30 region ndvi) = [] \<longrightarrow>
          co ! i = (time_start (coll ! i), [(''correlation'', None)]))"
proof -
  let ?T = "\<lambda>img e. \<exists>a b. select1 ''NDVI'' img = Inr a \<and> select1 ''LST'' img = Inr b \<and>
      e = (time_start img, [(''NDVI'', mean_reducer (smp 500 region a)),
                            (''LST'', mean_reducer (smp 500 region b))])"
  let ?C = "\<lambda>img e. \<exists>a b. select1 ''LST'' img = Inr a \<and> select1 ''NDVI'' img = Inr b \<and>
      e = (time_start img, [(''correlation'',
             pearsonsCorrelation (valid_pairs (smp 30 region a) (smp 30 region b)))])"
  have has: "(\<exists>a. select1 ''NDVI'' img = Inr a) \<and> (\<exists>b. select1 ''LST'' img = Inr b)"
    if "img \<in> set coll" for img
    using assms that by (rule landsatCollection_bands)
  have "\<forall>img \<in> set coll. \<exists>e. ?T img e"
  proof
    fix img
    assume "img \<in> set coll"
    from has [OF this] obtain a b where "select1 ''NDVI'' img = Inr a" and "select1 ''LST'' img = Inr b"
      by (elim conjE exE)
    then show "\<exists>e. ?T img e" by simp
  qed
  from list_all2_total [OF this] obtain tr where tr: "list_all2 ?T coll tr" ..
  have "\<forall>img \<in> set coll. \<exists>e. ?C img e"
  proof
    fix img
    assume "img \<in> set coll"
    from has [OF this] obtain a b where "select1 ''NDVI'' img = Inr a" and "select1 ''LST'' img = Inr b"
      by (elim conjE exE)
    then show "\<exists>e. ?C img e" by simp
  qed
  from list_all2_total [OF this] obtain co where co: "list_all2 ?C coll co" ..
  have 1: "atlTrnd smp coll region = Inr tr" using tr by (simp only: atlTrnd_Inr_iff)
  have 2: "correlChart smp coll region = Inr co" using co by (simp only: correlChart_Inr_iff)
  have 3: "length tr = length coll" using tr by (simp add: list_all2_lengthD)
  have 4: "length co = length coll" using co by (simp add: list_all2_lengthD)
  have 5: "map fst tr = map time_start coll"
  proof (rule list_all2_map_eq [symmetric, OF tr])
    fix img e
    assume "?T img e"
    then show "time_start img = fst e" by (elim exE conjE) simp
  qed
  have 6: "map fst co = map time_start coll"
  proof (rule list_all2_map_eq [symmetric, OF co])
    fix img e
    assume "?C img e"
    then show "time_start img = fst e" by (elim exE conjE) simp
  qed
  have 7: "sorted (map time_start coll) \<longrightarrow> sorted (map fst tr) \<and> sorted (map fst co)"
    by (simp add: 5 6)
  have 8: "tr ! i = (time_start (coll ! i), [(''NDVI'', None), (''LST'', None)])"
    if "i < length coll" "select1 ''NDVI'' (coll ! i) = Inr ndvi"
       "select1 ''LST'' (coll ! i) = Inr lst"
       "valid (smp 500 region ndvi) = []" "valid (smp 500 region lst) = []" for i ndvi lst
  proof -
    from tr that(1) have "?T (coll ! i) (tr ! i)" by (rule list_all2_nthD)
    then obtain a b where "select1 ''NDVI'' (coll ! i) = Inr a" and "select1 ''LST'' (coll ! i) = Inr b"
      and "tr ! i = (time_start (coll ! i), [(''NDVI'', mean_reducer (smp 500 region a)),
                            (''LST'', mean_reducer (smp 500 region b))])"
      by (elim exE conjE)
    with that show ?thesis by (simp add: mean_reducer_def)
  qed
  have 9: "co ! i = (time_start (coll ! i), [(''correlation'', None)])"
    if "i < length coll" "select1 ''NDVI'' (coll ! i) = Inr ndvi"
       "select1 ''LST'' (coll ! i) = Inr lst"
       "valid_pairs (smp 30 region lst) (smp 30 region ndvi) = []" for i ndvi lst
  proof -
    from co that(1) have "?C (coll ! i) (co ! i)" by (rule list_all2_nthD)
    then obtain a b where "select1 ''LST'' (coll ! i) = Inr a" and "select1 ''NDVI'' (coll ! i) = Inr b"
      and "co ! i = (time_start (coll ! i), [(''correlation'',
             pearsonsCorrelation (valid_pairs (smp 30 region a) (smp 30 region b)))])"
      by (elim exE conjE)
    with that show ?thesis by (simp add: pearsonsCorrelation_def)
  qed
  from 8 have m8: "\<forall>i ndvi lst. i < length coll \<and> select1 ''NDVI'' (coll ! i) = Inr ndvi \<and>
          select1 ''LST'' (coll ! i) = Inr lst \<and>
          valid (smp 500 region ndvi) = [] \<and> valid (smp 500 region lst) = [] \<longrightarrow>
          tr ! i = (time_start (coll ! i), [(''NDVI'', None), (''LST'', None)])"
    by blast
  from 9 have c9: "\<forall>i ndvi lst. i < length coll \<and> select1 ''NDVI'' (coll ! i) = Inr ndvi \<and>
          select1 ''LST'' (coll ! i) = Inr lst \<and>
          valid_pairs (smp 30 region lst) (smp 30 region ndvi) = [] \<longrightarrow>
          co ! i = (time_start (coll ! i), [(''correlation'', None)])"
    by blast
  from 1 2 3 4 5 6 7 m8 c9 show ?thesis
    by (intro exI [of _ tr] exI [of _ co] conjI)
qed

theorem series_one_entry_per_scene_witness:
  "landsatCollection example_archive [0, 1, 2] = Inr example_collection \<and>
   (\<exists>tr co. atlTrnd native_sample example_collection [9] = Inr tr \<and>
      correlChart native_sample example_collection [9] = Inr co \<and>
      length tr = 2 \<and> length co = 2 \<and>
      map fst tr = [1388534400000, 1500000000000] \<and>
      map fst co = [1388534400000, 1500000000000] \<and>
      sorted (map fst tr) \<and> sorted (map fst co) \<and>
      tr ! 1 = (1500000000000, [(''NDVI'', None), (''LST'', None)]) \<and>
      co ! 1 = (1500000000000, [(''correlation'', None)]))"
proof -
  let ?ndvi = "[Some 50, Some 0, Some 50, Some (0::real)]"
  let ?lst = "[Some 12.7208, Some 16.13882, None, Some (22.97486::real)]"
  from series_one_entry_per_scene [OF landsatCollection_example, of native_sample "[9]"]
  obtain tr co where
    1: "atlTrnd native_sample example_collection [9] = Inr tr" and
    2: "correlChart native_sample example_collection [9] = Inr co" and
    3: "length tr = length example_collection" and
    4: "length co = length example_collection" and
    5: "map fst tr = map time_start example_collection" and
    6: "map fst co = map time_start example_collection" and
    7: "sorted (map time_start example_collection) \<longrightarrow> sorted (map fst tr) \<and> sorted (map fst co)" and
    8: "\<forall>i ndvi lst. i < length example_collection \<and>
          select1 ''NDVI'' (example_collection ! i) = Inr ndvi \<and>
          select1 ''LST'' (example_collection ! i) = Inr lst \<and>
          valid (native_sample 500 [9] ndvi) = [] \<and> valid (native_sample 500 [9] lst) = [] \<longrightarrow>
          tr ! i = (time_start (example_collection ! i), [(''NDVI'', None), (''LST'', None)])" and
    9: "\<forall>i ndvi lst. i < length example_collection \<and>
          select1 ''NDVI'' (example_collection ! i) = Inr ndvi \<and>
          select1 ''LST'' (example_collection ! i) = Inr lst \<and>
          valid_pairs (native_sample 30 [9] lst) (native_sample 30 [9] ndvi) = [] \<longrightarrow>
          co ! i = (time_start (example_collection ! i), [(''correlation'', None)])"
    by (elim exE conjE)
  have len: "length example_collection = 2"
    and times: "map time_start example_collection = [1388534400000, 1500000000000]"
    and t1: "time_start (example_collection ! 1) = 1500000000000"
    by (simp_all add: example_collection_def scene_ok_derived_def scene_ok_def)
  have n: "select1 ''NDVI'' (example_collection ! 1) = Inr ?ndvi"
    and l: "select1 ''LST'' (example_collection ! 1) = Inr ?lst"
    by (simp_all add: example_collection_def scene_ok_derived_def scene_ok_def select1_def)
  have v: "valid (native_sample 500 [9] ?ndvi) = []" "valid (native_sample 500 [9] ?lst) = []"
    and p: "valid_pairs (native_sample 30 [9] ?lst) (native_sample 30 [9] ?ndvi) = []"
    by (simp_all add: native_sample_def pixel_at_def valid_pairs_def)
  have i: "(1::nat) < length example_collection" by (simp add: len)
  from 8 [rule_format, of 1 ?ndvi ?lst] i n l v
  have a: "tr ! 1 = (1500000000000, [(''NDVI'', None), (''LST'', None)])"
    using t1 by simp
  from 9 [rule_format, of 1 ?ndvi ?lst] i n l p
  have b: "co ! 1 = (1500000000000, [(''correlation'', None)])"
    using t1 by simp
  from 7 have s: "sorted (map fst tr)" "sorted (map fst co)" by (simp_all add: times)
  from 3 4 5 6 have c: "length tr = 2" "length co = 2"
    "map fst tr = [1388534400000, 1500000000000]" "map fst co = [1388534400000, 1500000000000]"
    by (simp_all only: len times)
  from landsatCollection_example 1 2 c s a b show ?thesis
    by (intro conjI exI [of _ tr] exI [of _ co])
qed

section \<open>The correlation of a scene\<close>

lemma correlChart_derived:
  assumes "landsatCollection archive g = Inr coll"
  shows "\<exists>co. correlChart smp coll region = Inr co"
proof -
  let ?C = "\<lambda>img e. \<exists>a b. select1 ''LST'' img = Inr a \<and> select1 ''NDVI'' img = Inr b \<and>
      e = (time_start img, [(''correlation'',
             pearsonsCorrelation (valid_pairs (smp 30 region a) (smp 30 region b)))])"
  have "\<forall>img \<in> set coll. \<exists>e. ?C img e"
  proof
    fix img
    assume "img \<in> set coll"
    from landsatCollection_bands [OF assms this]
    obtain a b where "select1 ''NDVI'' img = Inr a" and "select1 ''LST'' img = Inr b"
      by (elim conjE exE)
    then show "\<exists>e. ?C img e" by simp
  qed
  from list_all2_total [OF this] obtain co where "list_all2 ?C coll co" ..
  then have "correlChart smp coll region = Inr co" by (simp only: correlChart_Inr_iff)
  then show ?thesis ..
qed

text \<open>
  C1. For the collection the script derives and every region, the correlation chart
  succeeds, and its entry for a scene is computed from that scene alone: it
  is Pearson's r over the pixel pairs (LST, NDVI) of the scene that are valid in both
  bands inside the region, that is the sum of \<open>(x - mean x) * (y - mean y)\<close> divided by the
  square root of the product of the two sums of squares, whenever there are at least two
  pairs and both sums of squares are non-zero. It is a spatial correlation per date, and no
  other scene enters it. Where the pairs of the scene are perfectly anti-correlated (the
  LST values strictly ascending, NDVI a linear function of LST with negative slope) over
  at least 3 pixels, the entry is \<open>-1\<close>.
\<close>

theorem correlation_is_spatial_per_scene:
  assumes "landsatCollection archive atlGeom = Inr coll" and "i < length coll"
  shows "\<exists>co lst ndvi. correlChart smp coll region = Inr co \<and>
     select1 ''LST'' (coll ! i) = Inr lst \<and> select1 ''NDVI'' (coll ! i) = Inr ndvi \<and>
     co ! i = (time_start (coll ! i), [(''correlation'',
        pearsonsCorrelation (valid_pairs (smp 30 region lst) (smp 30 region ndvi)))]) \<and>
     (\<forall>ps. ps = valid_pairs (smp 30 region lst) (smp 30 region ndvi) \<and> 2 \<le> length ps \<and>
          sum_list (map (\<lambda>p. (fst p - mean_of (map fst ps))\<^sup>2) ps) \<noteq> 0 \<and>
          sum_list (map (\<lambda>p. (snd p - mean_of (map snd ps))\<^sup>2) ps) \<noteq> 0 \<longrightarrow>
        co ! i = (time_start (coll ! i), [(''correlation'',
          Some (sum_list (map (\<lambda>p. (fst p - mean_of (map fst ps)) * (snd p - mean_of (map snd ps))) ps) /
                sqrt (sum_list (map (\<lambda>p. (fst p - mean_of (map fst ps))\<^sup>2) ps) *
                      sum_list (map (\<lambda>p. (snd p - mean_of (map snd ps))\<^sup>2) ps))))])) \<and>
     (\<forall>ps a b. ps = valid_pairs (smp 30 region lst) (smp 30 region ndvi) \<and> 3 \<le> length ps \<and>
          sorted_wrt (<) (map fst ps) \<and> b < 0 \<and> (\<forall>p \<in> set ps. snd p = a + b * fst p) \<longrightarrow>
        co ! i = (time_start (coll ! i), [(''correlation'', Some (- 1))]))"
proof -
  from correlChart_derived [OF assms(1)] obtain co where
    c: "correlChart smp coll region = Inr co" ..
  then have "list_all2 (\<lambda>img e. \<exists>a b. select1 ''LST'' img = Inr a \<and> select1 ''NDVI'' img = Inr b \<and>
      e = (time_start img, [(''correlation'',
             pearsonsCorrelation (valid_pairs (smp 30 region a) (smp 30 region b)))])) coll co"
    by (simp only: correlChart_Inr_iff)
  from list_all2_nthD [OF this assms(2)] obtain lst ndvi where
    l: "select1 ''LST'' (coll ! i) = Inr lst" and n: "select1 ''NDVI'' (coll ! i) = Inr ndvi" and
    e: "co ! i = (time_start (coll ! i), [(''correlation'',
        pearsonsCorrelation (valid_pairs (smp 30 region lst) (smp 30 region ndvi)))])"
    by (elim exE conjE)
  let ?ps = "valid_pairs (smp 30 region lst) (smp 30 region ndvi)"
  have f: "co ! i = (time_start (coll ! i), [(''correlation'',
          Some (sum_list (map (\<lambda>p. (fst p - mean_of (map fst ps)) * (snd p - mean_of (map snd ps))) ps) /
                sqrt (sum_list (map (\<lambda>p. (fst p - mean_of (map fst ps))\<^sup>2) ps) *
                      sum_list (map (\<lambda>p. (snd p - mean_of (map snd ps))\<^sup>2) ps))))])"
    if "ps = ?ps" "2 \<le> length ps"
       "sum_list (map (\<lambda>p. (fst p - mean_of (map fst ps))\<^sup>2) ps) \<noteq> 0"
       "sum_list (map (\<lambda>p. (snd p - mean_of (map snd ps))\<^sup>2) ps) \<noteq> 0" for ps
  proof -
    from that(2-4) have "pearsonsCorrelation ps =
          Some (sum_list (map (\<lambda>p. (fst p - mean_of (map fst ps)) * (snd p - mean_of (map snd ps))) ps) /
                sqrt (sum_list (map (\<lambda>p. (fst p - mean_of (map fst ps))\<^sup>2) ps) *
                      sum_list (map (\<lambda>p. (snd p - mean_of (map snd ps))\<^sup>2) ps)))"
      by (simp add: pearsonsCorrelation_def Let_def o_def)
    with e that(1) show ?thesis by simp
  qed
  have g: "co ! i = (time_start (coll ! i), [(''correlation'', Some (- 1))])"
    if "ps = ?ps" "3 \<le> length ps" "sorted_wrt (<) (map fst ps)" "b < 0"
       "\<forall>p \<in> set ps. snd p = a + b * fst p" for ps a b
  proof -
    from that(2) have "2 \<le> length ps" by simp
    from this that(3) that(5) that(4) have "pearsonsCorrelation ps = Some (- 1)"
      by (rule pearson_anticorrelated)
    with e that(1) show ?thesis by simp
  qed
  from f have f': "\<forall>ps. ps = ?ps \<and> 2 \<le> length ps \<and>
          sum_list (map (\<lambda>p. (fst p - mean_of (map fst ps))\<^sup>2) ps) \<noteq> 0 \<and>
          sum_list (map (\<lambda>p. (snd p - mean_of (map snd ps))\<^sup>2) ps) \<noteq> 0 \<longrightarrow>
        co ! i = (time_start (coll ! i), [(''correlation'',
          Some (sum_list (map (\<lambda>p. (fst p - mean_of (map fst ps)) * (snd p - mean_of (map snd ps))) ps) /
                sqrt (sum_list (map (\<lambda>p. (fst p - mean_of (map fst ps))\<^sup>2) ps) *
                      sum_list (map (\<lambda>p. (snd p - mean_of (map snd ps))\<^sup>2) ps))))])"
    by (intro allI impI) (elim conjE)
  from g have g': "\<forall>ps a b. ps = ?ps \<and> 3 \<le> length ps \<and>
          sorted_wrt (<) (map fst ps) \<and> b < 0 \<and> (\<forall>p \<in> set ps. snd p = a + b * fst p) \<longrightarrow>
        co ! i = (time_start (coll ! i), [(''correlation'', Some (- 1))])"
    by (intro allI impI) (elim conjE)
  from c l n e f' g' show ?thesis
    by (intro exI [of _ co] exI [of _ lst] exI [of _ ndvi] conjI)
qed

lemma correlChart_scene_anti:
  "correlChart native_sample [scene_anti] [0, 1, 2] =
     Inr [(1450000000000, [(''correlation'',
        pearsonsCorrelation [(12.7208, 50), (16.13882, 0), (19.55684, - 50)])])]"
  unfolding correlChart_Inr_iff
  by (simp add: scene_anti_def select1_def native_sample_def pixel_at_def valid_pairs_def)

lemma landsatCollection_scene_anti:
  "landsatCollection [scene_anti_raw] [0, 1, 2] = Inr [scene_anti]"
proof -
  have "(0::nat) \<in> set [0, 1, 2] \<and> (0::nat) \<in> set [0, 1, 2]" by simp
  then have "intersects [0, 1, 2] [0, 1, 2]" unfolding intersects_def by (intro bexI [of _ 0]) simp_all
  then have f: "filter_lt CLOUD_COVER 15
      (filterDate date_2014_01_01 date_2023_12_31 (filterBounds [0, 1, 2] [scene_anti_raw])) =
     [scene_anti_raw]"
    by (simp add: filter_lt_def filterDate_def filterBounds_def scene_anti_raw_def
        date_2014_01_01_def date_2023_12_31_def)
  have n: "addNdvi scene_anti_raw =
      Inr (scene_anti_raw\<lparr>bands := bands scene_anti_raw @ [(''NDVI'', [Some 50, Some 0, Some (- 50)])]\<rparr>)"
    by (simp add: select1_def scene_anti_raw_def addNdvi_def addBands_def
      bandNames_def fresh_name_def ndvi_expression_def multiply_def px2_def ee_divide_def)
  have l: "addLST (scene_anti_raw\<lparr>bands := bands scene_anti_raw @
        [(''NDVI'', [Some 50, Some 0, Some (- 50)])]\<rparr>) = Inr scene_anti"
    by (simp add: select1_def scene_anti_raw_def scene_anti_def addLST_def addBands_def
      bandNames_def fresh_name_def multiply_def add_def subtract_def)
  show ?thesis
    unfolding landsatCollection_def f by (simp add: n l)
qed

theorem correlation_is_spatial_per_scene_witness:
  "landsatCollection [scene_anti_raw] [0, 1, 2] = Inr [scene_anti] \<and>
   correlChart native_sample [scene_anti] [0, 1, 2] =
     Inr [(1450000000000, [(''correlation'', Some (- 1))])] \<and>
   sum_list (map (\<lambda>p. (fst p - 16.13882) * (snd p - 0))
       ([(12.7208, 50), (16.13882, 0), (19.55684, - 50)] :: (real \<times> real) list)) /
     sqrt (sum_list (map (\<lambda>p. (fst p - 16.13882)\<^sup>2)
             ([(12.7208, 50), (16.13882, 0), (19.55684, - 50)] :: (real \<times> real) list)) *
           sum_list (map (\<lambda>p. (snd p - 0)\<^sup>2)
             ([(12.7208, 50), (16.13882, 0), (19.55684, - 50)] :: (real \<times> real) list))) = - 1"
proof -
  let ?ps = "[(12.7208, 50), (16.13882, 0), (19.55684, - 50)] :: (real \<times> real) list"
  let ?b = "- (50 / 3.41802) :: real"
  let ?a = "50 + 50 / 3.41802 * 12.7208 :: real"
  have i: "0 < length [scene_anti]" by simp
  from correlation_is_spatial_per_scene [OF landsatCollection_scene_anti i,
      of native_sample "[0, 1, 2]"]
  obtain co lst ndvi where
    c: "correlChart native_sample [scene_anti] [0, 1, 2] = Inr co" and
    l: "select1 ''LST'' ([scene_anti] ! 0) = Inr lst" and
    n: "select1 ''NDVI'' ([scene_anti] ! 0) = Inr ndvi" and
    f: "\<forall>ps. ps = valid_pairs (native_sample 30 [0, 1, 2] lst) (native_sample 30 [0, 1, 2] ndvi) \<and>
          2 \<le> length ps \<and>
          sum_list (map (\<lambda>p. (fst p - mean_of (map fst ps))\<^sup>2) ps) \<noteq> 0 \<and>
          sum_list (map (\<lambda>p. (snd p - mean_of (map snd ps))\<^sup>2) ps) \<noteq> 0 \<longrightarrow>
        co ! 0 =
          (time_start ([scene_anti] ! 0), [(''correlation'',
          Some (sum_list (map (\<lambda>p. (fst p - mean_of (map fst ps)) * (snd p - mean_of (map snd ps))) ps) /
                sqrt (sum_list (map (\<lambda>p. (fst p - mean_of (map fst ps))\<^sup>2) ps) *
                      sum_list (map (\<lambda>p. (snd p - mean_of (map snd ps))\<^sup>2) ps))))])" and
    g: "\<forall>ps a b. ps = valid_pairs (native_sample 30 [0, 1, 2] lst) (native_sample 30 [0, 1, 2] ndvi) \<and>
          3 \<le> length ps \<and> sorted_wrt (<) (map fst ps) \<and> b < 0 \<and>
          (\<forall>p \<in> set ps. snd p = a + b * fst p) \<longrightarrow>
        co ! 0 = (time_start ([scene_anti] ! 0), [(''correlation'', Some (- 1))])"
    by (elim exE conjE)
  from c correlChart_scene_anti
  have co: "co = [(1450000000000, [(''correlation'', pearsonsCorrelation ?ps)])]"
    by simp
  from l have lst: "lst = [Some 12.7208, Some 16.13882, Some 19.55684]"
    by (simp add: scene_anti_def select1_def)
  from n have ndvi: "ndvi = [Some 50, Some 0, Some (- 50)]"
    by (simp add: scene_anti_def select1_def)
  have ps: "?ps = valid_pairs (native_sample 30 [0, 1, 2] lst) (native_sample 30 [0, 1, 2] ndvi)"
    by (simp add: lst ndvi native_sample_def pixel_at_def valid_pairs_def)
  have len: "3 \<le> length ?ps" by simp
  have asc: "sorted_wrt (<) (map fst ?ps)" by simp
  have neg: "?b < 0" by simp
  have lin: "\<forall>p \<in> set ?ps. snd p = ?a + ?b * fst p" by simp
  from g [rule_format, of ?ps ?b ?a] ps len asc neg lin
  have "co ! 0 = (time_start ([scene_anti] ! 0), [(''correlation'', Some (- 1))])"
    by blast
  then have r: "pearsonsCorrelation ?ps = Some (- 1)" by (simp add: co)
  have mx: "mean_of (map fst ?ps) = 16.13882" and my: "mean_of (map snd ?ps) = 0"
    by (simp_all add: mean_of_def)
  have len2: "2 \<le> length ?ps" by simp
  have sx: "sum_list (map (\<lambda>p. (fst p - mean_of (map fst ?ps))\<^sup>2) ?ps) \<noteq> 0"
    and sy: "sum_list (map (\<lambda>p. (snd p - mean_of (map snd ?ps))\<^sup>2) ?ps) \<noteq> 0"
    unfolding mx my by (simp_all add: power2_eq_square)
  from f [rule_format, of ?ps] ps len2 sx sy
  have "co ! 0 =
          (time_start ([scene_anti] ! 0), [(''correlation'',
          Some (sum_list (map (\<lambda>p. (fst p - mean_of (map fst ?ps)) * (snd p - mean_of (map snd ?ps))) ?ps) /
                sqrt (sum_list (map (\<lambda>p. (fst p - mean_of (map fst ?ps))\<^sup>2) ?ps) *
                      sum_list (map (\<lambda>p. (snd p - mean_of (map snd ?ps))\<^sup>2) ?ps))))])"
    by blast
  then have "pearsonsCorrelation ?ps =
      Some (sum_list (map (\<lambda>p. (fst p - mean_of (map fst ?ps)) * (snd p - mean_of (map snd ?ps))) ?ps) /
                sqrt (sum_list (map (\<lambda>p. (fst p - mean_of (map fst ?ps))\<^sup>2) ?ps) *
                      sum_list (map (\<lambda>p. (snd p - mean_of (map snd ?ps))\<^sup>2) ?ps)))"
    unfolding co by (simp only: nth_Cons_0 prod.inject list.inject simp_thms)
  with r have v: "sum_list (map (\<lambda>p. (fst p - mean_of (map fst ?ps)) * (snd p - mean_of (map snd ?ps))) ?ps) /
                sqrt (sum_list (map (\<lambda>p. (fst p - mean_of (map fst ?ps))\<^sup>2) ?ps) *
                      sum_list (map (\<lambda>p. (snd p - mean_of (map snd ?ps))\<^sup>2) ?ps)) = - 1"
    by (simp only: option.inject)
  from r correlChart_scene_anti have d: "correlChart native_sample [scene_anti] [0, 1, 2] =
     Inr [(1450000000000, [(''correlation'', Some (- 1))])]"
    by (simp only:)
  from landsatCollection_scene_anti d v [unfolded mx my] show ?thesis by (intro conjI)
qed

text \<open>
  C2. A scene with fewer than 2 valid pixel pairs inside the region, or with zero variance
  in either band over its valid pairs, gets a no-data correlation entry: the chart does not
  fail and invents no value, and the entries of the scenes before and after it are what
  they are without it.
\<close>

theorem degenerate_correlation_is_no_data:
  assumes "select1 ''LST'' s = Inr lst" and "select1 ''NDVI'' s = Inr ndvi"
    and "ps = valid_pairs (smp 30 region lst) (smp 30 region ndvi)"
    and "length ps < 2 \<or> (\<exists>c. \<forall>p \<in> set ps. fst p = c) \<or> (\<exists>c. \<forall>p \<in> set ps. snd p = c)"
    and "correlChart smp before region = Inr a" and "correlChart smp after region = Inr b"
  shows "correlChart smp (before @ s # after) region =
           Inr (a @ (time_start s, [(''correlation'', None)]) # b)"
proof -
  let ?C = "\<lambda>img e. \<exists>a b. select1 ''LST'' img = Inr a \<and> select1 ''NDVI'' img = Inr b \<and>
      e = (time_start img, [(''correlation'',
             pearsonsCorrelation (valid_pairs (smp 30 region a) (smp 30 region b)))])"
  from assms(4) have "pearsonsCorrelation ps = None" by (rule pearson_degenerate)
  with assms(1-3) have "?C s (time_start s, [(''correlation'', None)])" by simp
  moreover from assms(5) have "list_all2 ?C before a" by (simp only: correlChart_Inr_iff)
  moreover from assms(6) have "list_all2 ?C after b" by (simp only: correlChart_Inr_iff)
  ultimately have "list_all2 ?C (before @ s # after) (a @ (time_start s, [(''correlation'', None)]) # b)"
    by (intro list_all2_appendI list.rel_intros)
  then show ?thesis by (simp only: correlChart_Inr_iff)
qed

theorem degenerate_correlation_is_no_data_witness:
  "correlChart native_sample [example_derived, scene_anti, scene_flat] [0, 1, 2] =
     Inr [(1400000000000, [(''correlation'', None)]),
          (1450000000000, [(''correlation'',
             pearsonsCorrelation [(12.7208, 50), (16.13882, 0), (19.55684, - 50)])]),
          (1460000000000, [(''correlation'', None)])]"
proof -
  let ?ps = "[(12.7208, 0), (16.13882, 0), (19.55684, 0)] :: (real \<times> real) list"
  have l: "select1 ''LST'' scene_flat = Inr [Some 12.7208, Some 16.13882, Some 19.55684]"
    and n: "select1 ''NDVI'' scene_flat = Inr [Some 0, Some 0, Some 0]"
    by (simp_all add: scene_flat_def select1_def)
  have ps: "?ps =
      valid_pairs (native_sample 30 [0, 1, 2] [Some 12.7208, Some 16.13882, Some 19.55684])
        (native_sample 30 [0, 1, 2] [Some 0, Some 0, Some 0])"
    by (simp add: native_sample_def pixel_at_def valid_pairs_def)
  have "\<forall>p \<in> set ?ps. snd p = 0"
    by simp
  then have d: "length ?ps < 2 \<or> (\<exists>c. \<forall>p \<in> set ?ps. fst p = c) \<or> (\<exists>c. \<forall>p \<in> set ?ps. snd p = c)"
    by blast
  have p1: "pearsonsCorrelation [] = None"
    by (simp add: pearsonsCorrelation_def)
  have before: "correlChart native_sample [example_derived, scene_anti] [0, 1, 2] =
      Inr [(1400000000000, [(''correlation'', None)]),
           (1450000000000, [(''correlation'',
             pearsonsCorrelation [(12.7208, 50), (16.13882, 0), (19.55684, - 50)])])]"
    unfolding correlChart_Inr_iff using p1
    by (simp add: example_derived_def example_with_ndvi_def example_scene_def scene_anti_def
        select1_def native_sample_def pixel_at_def valid_pairs_def)
  have after: "correlChart native_sample [] [0, 1, 2] = Inr []"
    unfolding correlChart_Inr_iff by simp
  from degenerate_correlation_is_no_data [OF l n ps d before after]
  show ?thesis by (simp add: scene_flat_def)
qed

section \<open>Median composites: the value of a pixel\<close>

lemma length_le_grid_size: "b \<in> set bs \<Longrightarrow> length b \<le> grid_size bs"
  by (induction bs) (auto simp: grid_size_def)

lemma valid_all_None: "\<forall>p \<in> set ps. p = None \<Longrightarrow> valid ps = []"
  by (induction ps) auto

lemma median_reducer_all_None: "\<forall>p \<in> set ps. p = None \<Longrightarrow> median_reducer ps = None"
  by (simp add: median_reducer_def valid_all_None)

lemma pixel_at_median_band:
  "pixel_at (median_band bs) i = median_reducer (map (\<lambda>b. pixel_at b i) bs)"
proof (cases "i < grid_size bs")
  case True
  then have "median_band bs ! i = median_reducer (map (\<lambda>b. pixel_at b i) bs)"
    by (simp add: median_band_def)
  moreover have "length (median_band bs) = grid_size bs"
    by (simp add: median_band_def)
  ultimately show ?thesis using True by (simp add: pixel_at_def)
next
  case False
  then have "\<forall>b \<in> set bs. pixel_at b i = None"
    using length_le_grid_size [of _ bs] by (fastforce simp: pixel_at_def)
  then have "median_reducer (map (\<lambda>b. pixel_at b i) bs) = None"
    by (intro median_reducer_all_None) auto
  with False show ?thesis by (simp add: pixel_at_def median_band_def)
qed

lemma pixel_at_clip_band:
  "pixel_at (clip_band g b) i = (if i \<in> set g then pixel_at b i else None)"
  by (simp add: pixel_at_def clip_band_def)

lemma select_one_InrD:
  "select [n] s = Inr s' \<Longrightarrow> \<exists>b. map_of (bands s) n = Some b \<and> s' = s\<lparr>bands := [(n, b)]\<rparr>"
  by (auto simp: select_def split: option.splits sum.splits)

lemma select_collection_one:
  assumes "select_collection [n] coll = Inr c"
  shows "band_stack n c = band_stack n coll \<and> length c = length coll \<and>
         (\<forall>s \<in> set c. bandNames s = [n])"
proof -
  from assms have "list_all2 (\<lambda>s s'. select [n] s = Inr s') coll c"
    by (simp only: select_collection_def map_results_Inr_iff)
  then show ?thesis
  proof (induction rule: list_all2_induct)
    case Nil
    then show ?case by (simp add: band_stack_def)
  next
    case (Cons s coll s' c)
    from select_one_InrD [OF Cons.hyps(1)] obtain b where
      "map_of (bands s) n = Some b" and "s' = s\<lparr>bands := [(n, b)]\<rparr>" by (elim exE conjE)
    with Cons.IH show ?case by (simp add: band_stack_def bandNames_def)
  qed
qed

lemma median_one_band:
  assumes "select_collection [n] coll = Inr c" and "coll \<noteq> []"
  shows "median c = [(n, median_band (band_stack n coll))]"
proof -
  note s = select_collection_one [OF assms(1)]
  from s assms(2) obtain x xs where c: "c = x # xs" by (cases c) auto
  with s have "bandNames x = [n]" by simp
  with s c show ?thesis by (simp add: median_def)
qed

lemma filter_less_tail:
  assumes "k \<le> length vs" and "\<forall>j. k \<le> j \<and> j < length vs \<longrightarrow> m \<le> vs ! j"
  shows "length (filter (\<lambda>v. v < (m::real)) vs) \<le> k"
proof -
  have "\<not> v < m" if "v \<in> set (drop k vs)" for v
  proof -
    from that obtain i where i: "i < length vs - k" and v: "v = vs ! (k + i)"
      by (auto simp: in_set_conv_nth)
    from i have "k \<le> k + i \<and> k + i < length vs" by linarith
    with assms(2) have "m \<le> vs ! (k + i)" by blast
    with v show ?thesis by simp
  qed
  then have "filter (\<lambda>v. v < m) (drop k vs) = []"
    by (simp add: filter_empty_conv)
  moreover have "filter (\<lambda>v. v < m) vs =
      filter (\<lambda>v. v < m) (take k vs) @ filter (\<lambda>v. v < m) (drop k vs)"
    by (simp only: filter_append [symmetric] append_take_drop_id)
  ultimately have "filter (\<lambda>v. v < m) vs = filter (\<lambda>v. v < m) (take k vs)"
    by simp
  also have "length \<dots> \<le> length (take k vs)" by (rule length_filter_le)
  finally show ?thesis using assms(1) by simp
qed

lemma filter_greater_head:
  assumes "k \<le> length vs" and "\<forall>j. j < k \<longrightarrow> vs ! j \<le> m"
  shows "length (filter (\<lambda>v. (m::real) < v) vs) \<le> length vs - k"
proof -
  have "\<not> m < v" if "v \<in> set (take k vs)" for v
  proof -
    from that obtain i where "i < k" and "v = vs ! i"
      using assms(1) by (auto simp: in_set_conv_nth)
    with assms(2) [rule_format, of i] show ?thesis by simp
  qed
  then have "filter (\<lambda>v. m < v) (take k vs) = []"
    by (simp add: filter_empty_conv)
  moreover have "filter (\<lambda>v. m < v) vs =
      filter (\<lambda>v. m < v) (take k vs) @ filter (\<lambda>v. m < v) (drop k vs)"
    by (simp only: filter_append [symmetric] append_take_drop_id)
  ultimately have "filter (\<lambda>v. m < v) vs = filter (\<lambda>v. m < v) (drop k vs)"
    by simp
  also have "length \<dots> \<le> length (drop k vs)" by (rule length_filter_le)
  finally show ?thesis by simp
qed

lemma length_filter_sort: "length (filter P (sort xs)) = length (filter P xs)"
  by (simp add: filter_sort)

lemma median_reducer_halves:
  assumes "median_reducer ps = Some m"
  shows "2 * length (filter (\<lambda>v. v < m) (valid ps)) \<le> length (valid ps) \<and>
         2 * length (filter (\<lambda>v. m < v) (valid ps)) \<le> length (valid ps)"
proof -
  define vs where "vs = sort (valid ps)"
  define n where "n = length vs"
  have sorted: "sorted vs" by (simp add: vs_def)
  have len: "length (valid ps) = n" by (simp add: n_def vs_def)
  have less: "length (filter (\<lambda>v. v < m) (valid ps)) = length (filter (\<lambda>v. v < m) vs)"
    and greater: "length (filter (\<lambda>v. m < v) (valid ps)) = length (filter (\<lambda>v. m < v) vs)"
    by (simp_all add: vs_def length_filter_sort)
  have med: "(if n = 0 then None else if odd n then Some (vs ! (n div 2))
      else Some ((vs ! (n div 2 - 1) + vs ! (n div 2)) / 2)) = Some m"
    using assms unfolding median_reducer_def Let_def vs_def n_def .
  then have pos: "0 < n" by (cases "n = 0") simp_all
  have mono: "vs ! i \<le> vs ! j" if "i \<le> j" "j < n" for i j
    using sorted that by (simp add: sorted_iff_nth_mono n_def)
  show ?thesis
  proof (cases "odd n")
    case True
    with med pos have m: "m = vs ! (n div 2)" by simp
    from True obtain h where h: "n = 2 * h + 1" by (elim oddE)
    have a: "length (filter (\<lambda>v. v < m) vs) \<le> h"
    proof (rule filter_less_tail)
      show "h \<le> length vs" using h by (simp add: n_def [symmetric])
      show "\<forall>j. h \<le> j \<and> j < length vs \<longrightarrow> m \<le> vs ! j"
        using h by (auto simp: m n_def [symmetric] intro!: mono)
    qed
    have "length (filter (\<lambda>v. m < v) vs) \<le> length vs - (h + 1)"
    proof (rule filter_greater_head)
      show "h + 1 \<le> length vs" using h by (simp add: n_def [symmetric])
      show "\<forall>j. j < h + 1 \<longrightarrow> vs ! j \<le> m"
        using h by (auto simp: m intro!: mono)
    qed
    then have b: "length (filter (\<lambda>v. m < v) vs) \<le> h"
      using h by (simp add: n_def [symmetric])
    from a b show ?thesis by (simp add: less greater len h)
  next
    case False
    with med pos have m: "m = (vs ! (n div 2 - 1) + vs ! (n div 2)) / 2" by simp
    from False have "even n" by simp
    then obtain h where h: "n = 2 * h" by (elim evenE)
    with pos have hpos: "0 < h" by simp
    have "vs ! (h - 1) \<le> vs ! h" using h hpos by (intro mono) auto
    then have lo: "vs ! (h - 1) \<le> m" and hi: "m \<le> vs ! h"
      by (simp_all add: m h)
    have a: "length (filter (\<lambda>v. v < m) vs) \<le> h"
    proof (rule filter_less_tail)
      show "h \<le> length vs" using h by (simp add: n_def [symmetric])
      show "\<forall>j. h \<le> j \<and> j < length vs \<longrightarrow> m \<le> vs ! j"
      proof (intro allI impI)
        fix j
        assume "h \<le> j \<and> j < length vs"
        then have "vs ! h \<le> vs ! j" by (intro mono) (simp_all add: n_def)
        with hi show "m \<le> vs ! j" by simp
      qed
    qed
    have "length (filter (\<lambda>v. m < v) vs) \<le> length vs - h"
    proof (rule filter_greater_head)
      show "h \<le> length vs" using h by (simp add: n_def [symmetric])
      show "\<forall>j. j < h \<longrightarrow> vs ! j \<le> m"
      proof (intro allI impI)
        fix j
        assume "j < h"
        then have "vs ! j \<le> vs ! (h - 1)" using h by (intro mono) auto
        with lo show "vs ! j \<le> m" by simp
      qed
    qed
    then have b: "length (filter (\<lambda>v. m < v) vs) \<le> h"
      using h by (simp add: n_def [symmetric])
    from a b show ?thesis by (simp add: less greater len h)
  qed
qed

lemma sort_Nil_iff: "sort xs = [] \<longleftrightarrow> xs = []"
proof -
  have "length (sort xs) = length xs" by simp
  then show ?thesis by (metis length_0_conv)
qed

text \<open>
  C5. For a collection whose scenes carry the requested band, the composite (select the
  band, take the median, clip to the region) has one band. Inside the region its value at
  a pixel is the median of the valid values of that pixel across the scenes: at most half
  of them lie below it and at most half above it, it is the middle order statistic when
  their number is odd and the mean of the two central order statistics when it is even
  (10 and 20 give 15), and it is no-data when no scene has a valid value there. Outside
  the region the pixel is masked. \<open>ndviImage\<close> and \<open>lstImage\<close> are this composite for
  the bands \<^verbatim>\<open>NDVI\<close> and \<^verbatim>\<open>LST\<close>.
\<close>

theorem composite_is_pixelwise_median:
  assumes "select_collection [n] coll = Inr c" and "coll \<noteq> []"
  shows "\<exists>mb. clip g (median c) = [(n, mb)] \<and>
     (n = ''NDVI'' \<longrightarrow> ndviImage coll g = Inr [(n, mb)]) \<and>
     (n = ''LST'' \<longrightarrow> lstImage coll g = Inr [(n, mb)]) \<and>
     (\<forall>i. i \<in> set g \<longrightarrow>
        pixel_at mb i = median_reducer (map (\<lambda>b. pixel_at b i) (band_stack n coll))) \<and>
     (\<forall>i. i \<notin> set g \<longrightarrow> pixel_at mb i = None) \<and>
     (\<forall>i m. pixel_at mb i = Some m \<longrightarrow>
        2 * length (filter (\<lambda>v. v < m) (valid (map (\<lambda>b. pixel_at b i) (band_stack n coll))))
          \<le> length (valid (map (\<lambda>b. pixel_at b i) (band_stack n coll))) \<and>
        2 * length (filter (\<lambda>v. m < v) (valid (map (\<lambda>b. pixel_at b i) (band_stack n coll))))
          \<le> length (valid (map (\<lambda>b. pixel_at b i) (band_stack n coll)))) \<and>
     (\<forall>ps. valid ps = [] \<longrightarrow> median_reducer ps = None) \<and>
     (\<forall>ps. valid ps \<noteq> [] \<and> even (length (valid ps)) \<longrightarrow>
        median_reducer ps = Some ((sort (valid ps) ! (length (valid ps) div 2 - 1) +
                                   sort (valid ps) ! (length (valid ps) div 2)) / 2)) \<and>
     (\<forall>ps. odd (length (valid ps)) \<longrightarrow>
        median_reducer ps = Some (sort (valid ps) ! (length (valid ps) div 2))) \<and>
     median_reducer [Some 10, Some 20] = Some 15"
proof -
  let ?mb = "clip_band g (median_band (band_stack n coll))"
  let ?stack = "\<lambda>i. map (\<lambda>b. pixel_at b i) (band_stack n coll)"
  have 1: "clip g (median c) = [(n, ?mb)]"
    by (simp add: median_one_band [OF assms] clip_def)
  have 2: "n = ''NDVI'' \<longrightarrow> ndviImage coll g = Inr [(n, ?mb)]"
    using assms(1) 1 by (auto simp: ndviImage_def)
  have 3: "n = ''LST'' \<longrightarrow> lstImage coll g = Inr [(n, ?mb)]"
    using assms(1) 1 by (auto simp: lstImage_def)
  have 4: "\<forall>i. i \<in> set g \<longrightarrow> pixel_at ?mb i = median_reducer (?stack i)"
    by (simp add: pixel_at_clip_band pixel_at_median_band)
  have 5: "\<forall>i. i \<notin> set g \<longrightarrow> pixel_at ?mb i = None"
    by (simp add: pixel_at_clip_band)
  have 6: "\<forall>i m. pixel_at ?mb i = Some m \<longrightarrow>
        2 * length (filter (\<lambda>v. v < m) (valid (?stack i))) \<le> length (valid (?stack i)) \<and>
        2 * length (filter (\<lambda>v. m < v) (valid (?stack i))) \<le> length (valid (?stack i))"
  proof (intro allI impI)
    fix i m
    assume "pixel_at ?mb i = Some m"
    then have "median_reducer (?stack i) = Some m"
      by (simp add: pixel_at_clip_band pixel_at_median_band split: if_splits)
    then show "2 * length (filter (\<lambda>v. v < m) (valid (?stack i))) \<le> length (valid (?stack i)) \<and>
        2 * length (filter (\<lambda>v. m < v) (valid (?stack i))) \<le> length (valid (?stack i))"
      by (rule median_reducer_halves)
  qed
  have 7: "\<forall>ps. valid ps = [] \<longrightarrow> median_reducer ps = None"
    by (simp add: median_reducer_def)
  have 8: "\<forall>ps. valid ps \<noteq> [] \<and> even (length (valid ps)) \<longrightarrow>
        median_reducer ps = Some ((sort (valid ps) ! (length (valid ps) div 2 - 1) +
                                   sort (valid ps) ! (length (valid ps) div 2)) / 2)"
    by (simp add: median_reducer_def Let_def sort_Nil_iff)
  have 9: "\<forall>ps. odd (length (valid ps)) \<longrightarrow>
        median_reducer ps = Some (sort (valid ps) ! (length (valid ps) div 2))"
    by (auto simp: median_reducer_def Let_def sort_Nil_iff)
  have 10: "median_reducer [Some 10, Some 20] = Some 15"
    by (simp add: median_reducer_def)
  from 1 2 3 4 5 6 7 8 9 10 show ?thesis
    by (intro exI [of _ ?mb] conjI)
qed

theorem composite_is_pixelwise_median_witness:
  "select_collection [''NDVI''] [composite_a, composite_b] =
     Inr [composite_a\<lparr>bands := [(''NDVI'', [Some 10, None, Some 1])]\<rparr>,
          composite_b\<lparr>bands := [(''NDVI'', [Some 20, None, None])]\<rparr>] \<and>
   (\<exists>mb. ndviImage [composite_a, composite_b] [0, 1] = Inr [(''NDVI'', mb)] \<and>
      pixel_at mb 0 = Some 15 \<and> pixel_at mb 1 = None \<and> pixel_at mb 2 = None \<and>
      2 * length (filter (\<lambda>v. v < 15) (valid [Some 10, Some 20])) \<le> length (valid [Some 10, Some 20]) \<and>
      2 * length (filter (\<lambda>v. 15 < v) (valid [Some 10, Some 20])) \<le> length (valid [Some 10, Some 20])) \<and>
   median_reducer [None, None] = None \<and>
   median_reducer [Some 20, None, Some 10] = Some 15 \<and>
   median_reducer [Some 20, Some 1, Some 10] = Some 10"
proof -
  have h: "select_collection [''NDVI''] [composite_a, composite_b] =
     Inr [composite_a\<lparr>bands := [(''NDVI'', [Some 10, None, Some 1])]\<rparr>,
          composite_b\<lparr>bands := [(''NDVI'', [Some 20, None, None])]\<rparr>]"
    by (simp add: select_collection_def select_def composite_a_def composite_b_def)
  have ne: "[composite_a, composite_b] \<noteq> []" by simp
  have st: "band_stack ''NDVI'' [composite_a, composite_b] =
      [[Some 10, None, Some 1], [Some 20, None, None]]"
    by (simp add: band_stack_def composite_a_def composite_b_def)
  have st0: "map (\<lambda>b. pixel_at b 0) (band_stack ''NDVI'' [composite_a, composite_b]) =
      [Some 10, Some 20]"
    and st1: "map (\<lambda>b. pixel_at b 1) (band_stack ''NDVI'' [composite_a, composite_b]) =
      [None, None]"
    by (simp_all add: st pixel_at_def)
  from composite_is_pixelwise_median [OF h ne, of "[0, 1]"] obtain mb where
    a: "''NDVI'' = ''NDVI'' \<longrightarrow> ndviImage [composite_a, composite_b] [0, 1] = Inr [(''NDVI'', mb)]" and
    b: "\<forall>i. i \<in> set [0, 1] \<longrightarrow> pixel_at mb i =
          median_reducer (map (\<lambda>b. pixel_at b i) (band_stack ''NDVI'' [composite_a, composite_b]))" and
    c: "\<forall>i. i \<notin> set [0, 1] \<longrightarrow> pixel_at mb i = None" and
    d: "\<forall>i m. pixel_at mb i = Some m \<longrightarrow>
        2 * length (filter (\<lambda>v. v < m)
              (valid (map (\<lambda>b. pixel_at b i) (band_stack ''NDVI'' [composite_a, composite_b]))))
          \<le> length (valid (map (\<lambda>b. pixel_at b i) (band_stack ''NDVI'' [composite_a, composite_b]))) \<and>
        2 * length (filter (\<lambda>v. m < v)
              (valid (map (\<lambda>b. pixel_at b i) (band_stack ''NDVI'' [composite_a, composite_b]))))
          \<le> length (valid (map (\<lambda>b. pixel_at b i) (band_stack ''NDVI'' [composite_a, composite_b])))" and
    e: "\<forall>ps. valid ps = [] \<longrightarrow> median_reducer ps = None" and
    f: "\<forall>ps. valid ps \<noteq> [] \<and> even (length (valid ps)) \<longrightarrow>
        median_reducer ps = Some ((sort (valid ps) ! (length (valid ps) div 2 - 1) +
                                   sort (valid ps) ! (length (valid ps) div 2)) / 2)" and
    g: "\<forall>ps. odd (length (valid ps)) \<longrightarrow>
        median_reducer ps = Some (sort (valid ps) ! (length (valid ps) div 2))"
    by (elim exE conjE)
  from a have 1: "ndviImage [composite_a, composite_b] [0, 1] = Inr [(''NDVI'', mb)]" by simp
  from f [rule_format, of "[Some 10, Some 20]"]
  have m0: "median_reducer [Some 10, Some 20] = Some 15" by simp
  from e [rule_format, of "[None, None]"]
  have m1: "median_reducer [None, None] = None" by simp
  from b [rule_format, of 0] have 2: "pixel_at mb 0 = Some 15"
    by (simp add: st0 m0)
  from b [rule_format, of 1] st1 m1 have 3: "pixel_at mb 1 = None"
    by simp
  from c [rule_format, of 2] have 4: "pixel_at mb 2 = None"
    by simp
  from d [rule_format, OF 2]
  have 5: "2 * length (filter (\<lambda>v. v < 15) (valid [Some 10, Some 20])) \<le> length (valid [Some 10, Some 20])"
    and 6: "2 * length (filter (\<lambda>v. 15 < v) (valid [Some 10, Some 20])) \<le> length (valid [Some 10, Some 20])"
    by (simp_all only: st0)
  from f [rule_format, of "[Some 20, None, Some 10]"]
  have 7: "median_reducer [Some 20, None, Some 10] = Some 15" by simp
  from g [rule_format, of "[Some 20, Some 1, Some 10]"]
  have 8: "median_reducer [Some 20, Some 1, Some 10] = Some 10" by simp
  from h 1 2 3 4 5 6 m1 7 8 show ?thesis by (intro conjI exI [of _ mb])
qed

section \<open>Configuration\<close>

text \<open>
  C9 (as amended). The script takes no configuration: its pipeline is the configurable
  pipeline at the single configuration \<open>script_config\<close>, that is the interval from
  2014-01-01 to 2023-12-31, cloud cover below 15, bands \<^verbatim>\<open>SR_B5\<close>, \<^verbatim>\<open>SR_B4\<close> and \<^verbatim>\<open>ST_B10\<close>,
  the constants 0.00341802, 149.0 and 273, the NDVI factor 100 and the scales 500 and 30,
  all written as literals. Only the archive and the region geometries come from outside.
\<close>

theorem script_is_one_fixed_configuration:
  "landsatCollection archive region = configured_collection script_config archive region \<and>
   atlTrnd smp coll region = configured_trend script_config smp coll region \<and>
   correlChart smp coll region = configured_correlation script_config smp coll region \<and>
   addNdvi img = configured_addNdvi script_config img \<and>
   addLST img = configured_addLST script_config img"
proof -
  have n: "addNdvi = configured_addNdvi script_config"
    by (rule ext) (simp add: addNdvi_def configured_addNdvi_def script_config_def split: sum.splits)
  have l: "addLST = configured_addLST script_config"
    by (rule ext) (simp add: addLST_def configured_addLST_def script_config_def split: sum.splits)
  have c: "landsatCollection archive region = configured_collection script_config archive region"
    unfolding landsatCollection_def configured_collection_def n l
    by (simp add: script_config_def)
  have t: "atlTrnd smp coll region = configured_trend script_config smp coll region"
    by (simp add: atlTrnd_def configured_trend_def script_config_def split: sum.splits)
  have r: "correlChart smp coll region = configured_correlation script_config smp coll region"
    by (simp add: correlChart_def configured_correlation_def script_config_def split: sum.splits)
  from c t r n l show ?thesis by simp
qed

text \<open>
  C9 as stated fails: a configuration that asks for cloud cover below 50 does not change
  what the script computes. On the example archive the script keeps two scenes, the
  configurable pipeline three.
\<close>

theorem configuration_is_fixed_counterexample:
  "landsatCollection example_archive [0, 1, 2] = Inr example_collection \<and>
   configured_collection (script_config\<lparr>cfg_cloud := 50\<rparr>) example_archive [0, 1, 2]
     \<noteq> Inr example_collection"
proof -
  have f: "filter_lt CLOUD_COVER 50
      (filterDate date_2014_01_01 date_2023_12_31 (filterBounds [0, 1, 2] example_archive)) =
     [scene_ok\<lparr>time_start := 1388534400000\<rparr>, scene_ok,
      scene_ok\<lparr>time_start := 1600000000000, CLOUD_COVER := 15\<rparr>]"
    by (simp add: filter_lt_def filterDate_def filterBounds_def example_archive_def scene_ok_def
        intersects_def date_2014_01_01_def date_2023_12_31_def)
  have "configured_collection (script_config\<lparr>cfg_cloud := 50\<rparr>) example_archive [0, 1, 2]
     \<noteq> Inr example_collection"
  proof
    assume "configured_collection (script_config\<lparr>cfg_cloud := 50\<rparr>) example_archive [0, 1, 2]
      = Inr example_collection"
    then have "length (filter_lt CLOUD_COVER (cfg_cloud (script_config\<lparr>cfg_cloud := 50\<rparr>))
               (filterDate (cfg_start (script_config\<lparr>cfg_cloud := 50\<rparr>))
                  (cfg_end (script_config\<lparr>cfg_cloud := 50\<rparr>))
                  (filterBounds [0, 1, 2] example_archive))) = length example_collection"
      unfolding configured_collection_def map_results_compose by (rule list_all2_lengthD)
    then have "length example_collection = 3"
      using f by (simp add: script_config_def)
    then show False by (simp add: example_collection_def)
  qed
  with landsatCollection_example show ?thesis by (intro conjI)
qed

end
